theory Spec2Isabelle
  imports Main
begin

text \<open>
  A shallow embedding of the media service (create or merge by locator, identity
  resolution, description reconciliation, batch operations, deletion) and the properties
  C1 to C10 of its specification. Operations are functions on an explicit world: the
  stored assets, the identifier counter, the clock, and a script of what the storage
  layer does at each coming call. Helpers that are not among the sources are parameters.
\<close>

section \<open>JavaScript values used by the media service\<close>

text \<open>
  A string is a list of code units; a \<open>char\<close> is the code unit with the same number, so
  the strings of the model are the JavaScript strings whose code units are below 256
  (U+0000 to U+00FF). \<open>String.prototype.trim\<close> removes white space and line terminators at
  both ends; among these code units they are tab (U+0009), line feed (U+000A), vertical
  tab (U+000B), form feed (U+000C), carriage return (U+000D), space (U+0020) and the
  no-break space (U+00A0). A JavaScript string is truthy when it is not empty, a number
  when it is not zero.
\<close>

definition is_space :: "char \<Rightarrow> bool" where
  "is_space c =
     (c \<in> set [CHR 0x09, CHR 0x0A, CHR 0x0B, CHR 0x0C, CHR 0x0D, CHR '' '', CHR 0xA0])"

definition trim :: "string \<Rightarrow> string" where
  "trim s = rev (dropWhile is_space (rev (dropWhile is_space s)))"

definition startsWith_slash :: "string \<Rightarrow> bool" where
  "startsWith_slash s = (case s of [] \<Rightarrow> False | c # _ \<Rightarrow> c = CHR ''/'')"

text \<open>An error object: \<open>error.code\<close> (absent on a plain \<open>new Error(msg)\<close>) and
  \<open>error.message\<close>.\<close>

record error =
  err_code :: "nat option"
  err_message :: string

definition new_Error :: "string \<Rightarrow> error" where
  "new_Error msg = \<lparr>err_code = None, err_message = msg\<rparr>"

section \<open>Data model\<close>

text \<open>
  Modelled from the spec: the schema file \<open>models/mediaModel.js\<close> is not among the
  sources, so the stored shapes follow section 3 of the specification and the fields that
  \<open>mediaServices\<close> reads and writes: an asset has an identifier, a kind, a locator, a
  filename, a byte size, a MIME type, an ordered list of descriptions \<open>{id, text, createdAt}\<close>,
  the flag \<open>isAddedToLibrary\<close> and a creation time stamp (milliseconds).
\<close>

record description =
  desc_id :: string
  desc_text :: string
  desc_createdAt :: nat

record media =
  media_id :: string
  media_type :: string
  url :: string
  filename :: string
  media_size :: nat
  mimetype :: string
  descriptions :: "description list"
  isAddedToLibrary :: bool
  createdAt :: nat

text \<open>The payload of \<open>create\<close>, in the shape \<open>batchCreate\<close> builds it: absent fields are the
  falsy values \<open>''\<close>, \<open>0\<close> and \<open>[]\<close>; every description is \<open>{text}\<close>.\<close>

record data =
  data_type :: string
  data_url :: string
  data_filename :: string
  data_size :: nat
  data_mimetype :: string
  data_descriptions :: "string list"

text \<open>An entry of the desired list of \<open>saveDescriptions\<close>: \<open>{_id?, text?}\<close>.\<close>

record desired =
  in_id :: "string option"
  in_text :: "string option"

section \<open>The storage layer\<close>

text \<open>
  Modelled from the spec: the collection behind \<open>MediaModel\<close> (section 6 of the
  specification: find one by predicate, create, update by id, delete by id, a unique
  locator, a distinguishable uniqueness violation). The collection is the list of stored
  assets in insertion order; identifiers are issued from a counter and never reused; the
  clock gives \<open>Date.now()\<close>. What the environment does at each coming storage call is a
  script: the call proceeds, takes some time, fails with an error, or runs after the
  insert of another writer has landed. An empty script means that every call proceeds.
\<close>

datatype event = Proceed | Delay nat | Fail error | Race data

record world =
  docs :: "media list"
  next_oid :: nat
  clock :: nat
  script :: "event list"

text \<open>An operation takes the world and returns an error or a value, with the world it
  leaves: \<open>await\<close> is \<open>bind\<close>; \<open>throw\<close> and \<open>try\<close>/\<open>catch\<close> are those of JavaScript.\<close>

type_synonym 'a io = "world \<Rightarrow> (error + 'a) \<times> world"

definition return :: "'a \<Rightarrow> 'a io" where
  "return x = (\<lambda>w. (Inr x, w))"

definition throw :: "error \<Rightarrow> 'a io" where
  "throw e = (\<lambda>w. (Inl e, w))"

definition bind :: "'a io \<Rightarrow> ('a \<Rightarrow> 'b io) \<Rightarrow> 'b io" where
  "bind m f = (\<lambda>w. case m w of (Inl e, w') \<Rightarrow> (Inl e, w') | (Inr x, w') \<Rightarrow> f x w')"

definition try_catch :: "'a io \<Rightarrow> (error \<Rightarrow> 'a io) \<Rightarrow> 'a io" where
  "try_catch m h = (\<lambda>w. case m w of (Inl e, w') \<Rightarrow> h e w' | (Inr x, w') \<Rightarrow> (Inr x, w'))"

definition Date_now :: "nat io" where
  "Date_now = (\<lambda>w. (Inr (clock w), w))"

text \<open>
  Modelled from the spec: the new identifier of a record or of a description (section 3,
  and "new id" in section 4.4). \<open>oid_of n\<close> is the \<open>n\<close>-th identifier issued; its shape does
  not matter, only that different counters give different identifiers.
\<close>

definition oid_of :: "nat \<Rightarrow> string" where
  "oid_of n = replicate (Suc n) (CHR ''o'')"

definition duplicate_key :: error where
  "duplicate_key = \<lparr>err_code = Some 11000, err_message = ''E11000 duplicate key error''\<rparr>"

text \<open>Modelled from the spec: \<open>{text, createdAt}\<close> objects put into \<open>descriptions\<close> become
  entries with new identifiers at once.\<close>

definition cast_descriptions :: "(string \<times> nat) list \<Rightarrow> description list io" where
  "cast_descriptions xs = (\<lambda>w.
     (Inr (map (\<lambda>(k, (t, c)). \<lparr>desc_id = oid_of (next_oid w + k), desc_text = t, desc_createdAt = c\<rparr>)
             (enumerate 0 xs)),
      w\<lparr>next_oid := next_oid w + length xs\<rparr>))"

text \<open>
  Modelled from the spec: the insert behind \<open>MediaModel.create\<close>. A locator that is already
  stored is rejected with the uniqueness violation (code 11000); otherwise the new asset,
  with a new identifier, the current time and its descriptions, goes to the end of the
  collection. \<open>other_writer\<close> is the same insert issued by a concurrent \<open>create\<close>.
\<close>

definition insert_media :: "data \<Rightarrow> bool \<Rightarrow> media io" where
  "insert_media d added = (\<lambda>w.
     if \<exists>a \<in> set (docs w). url a = data_url d then (Inl duplicate_key, w)
     else (case cast_descriptions (map (\<lambda>t. (t, clock w)) (data_descriptions d))
                  (w\<lparr>next_oid := Suc (next_oid w)\<rparr>) of
             (Inl e, w') \<Rightarrow> (Inl e, w')
           | (Inr ds, w') \<Rightarrow>
               (let a = \<lparr>media_id = oid_of (next_oid w), media_type = data_type d,
                         url = data_url d, filename = data_filename d,
                         media_size = data_size d, mimetype = data_mimetype d,
                         descriptions = ds, isAddedToLibrary = added, createdAt = clock w\<rparr>
                in (Inr a, w'\<lparr>docs := docs w' @ [a]\<rparr>))))"

definition other_writer :: "data \<Rightarrow> world \<Rightarrow> world" where
  "other_writer d w = snd (insert_media d True w)"

text \<open>One call of the storage layer, under the next event of the script.\<close>

definition storage_call :: "'a io \<Rightarrow> 'a io" where
  "storage_call f = (\<lambda>w.
     case script w of
       [] \<Rightarrow> f w
     | ev # rest \<Rightarrow>
         (case ev of
            Proceed \<Rightarrow> f (w\<lparr>script := rest\<rparr>)
          | Delay n \<Rightarrow> (case f (w\<lparr>script := rest\<rparr>) of (r, w') \<Rightarrow> (r, w'\<lparr>clock := clock w' + n\<rparr>))
          | Fail e \<Rightarrow> (Inl e, w\<lparr>script := rest\<rparr>)
          | Race d \<Rightarrow> f (other_writer d (w\<lparr>script := rest\<rparr>))))"

text \<open>Modelled from the spec: saving a record replaces, and deleting by id removes, the
  first stored record with that identifier; the queries return the first match.\<close>

fun put :: "media \<Rightarrow> media list \<Rightarrow> media list" where
  "put a [] = []"
| "put a (b # bs) = (if media_id b = media_id a then a # bs else b # put a bs)"


definition findOne :: "(media \<Rightarrow> bool) \<Rightarrow> media option io" where
  "findOne P = storage_call (\<lambda>w. (Inr (find P (docs w)), w))"

definition findById :: "string \<Rightarrow> media option io" where
  "findById i = findOne (\<lambda>a. media_id a = i)"

definition MediaModel_create :: "data \<Rightarrow> bool \<Rightarrow> media io" where
  "MediaModel_create d added = storage_call (insert_media d added)"

definition save :: "media \<Rightarrow> unit io" where
  "save a = storage_call (\<lambda>w. (Inr (), w\<lparr>docs := put a (docs w)\<rparr>))"


section \<open>Description reconciliation (\<open>saveDescriptions\<close>)\<close>

definition normalizeId :: "string option \<Rightarrow> string option" where
  "normalizeId i = (case i of None \<Rightarrow> None | Some s \<Rightarrow> if s = [] then None else Some s)"

text \<open>The first \<open>forEach\<close>: the map of identified entries and the list of entries to add.\<close>

definition wanted_text :: "desired \<Rightarrow> string" where
  "wanted_text desc = (case in_text desc of None \<Rightarrow> [] | Some t \<Rightarrow> if t = [] then [] else trim t)"

definition collect_step ::
  "nat \<Rightarrow> desired \<Rightarrow> (string \<rightharpoonup> string) \<times> (string \<times> nat) list
     \<Rightarrow> (string \<rightharpoonup> string) \<times> (string \<times> nat) list" where
  "collect_step now desc acc =
     (case acc of (newDescMap, descriptionsToAdd) \<Rightarrow>
        (let text = wanted_text desc
         in if text = [] then (newDescMap, descriptionsToAdd)
            else (case normalizeId (in_id desc) of
                    Some i \<Rightarrow> (newDescMap(i \<mapsto> text), descriptionsToAdd)
                  | None \<Rightarrow> (newDescMap, descriptionsToAdd @ [(text, now)]))))"

fun collect ::
  "nat \<Rightarrow> desired list \<Rightarrow> (string \<rightharpoonup> string) \<times> (string \<times> nat) list
     \<Rightarrow> (string \<rightharpoonup> string) \<times> (string \<times> nat) list" where
  "collect now [] acc = acc"
| "collect now (desc # rest) acc = collect now rest (collect_step now desc acc)"

text \<open>The second \<open>forEach\<close>: walk the current descriptions, keep and update the identified ones.\<close>

definition keep_step ::
  "description \<Rightarrow> (string \<rightharpoonup> string) \<times> description list
     \<Rightarrow> (string \<rightharpoonup> string) \<times> description list" where
  "keep_step desc acc =
     (case acc of (newDescMap, descriptionsToKeep) \<Rightarrow>
        (case normalizeId (Some (desc_id desc)) of
           None \<Rightarrow> (newDescMap, descriptionsToKeep)
         | Some i \<Rightarrow>
             (case newDescMap i of
                None \<Rightarrow> (newDescMap, descriptionsToKeep)
              | Some newText \<Rightarrow>
                  (newDescMap(i := None), descriptionsToKeep @ [desc\<lparr>desc_text := newText\<rparr>]))))"

fun keep_walk ::
  "description list \<Rightarrow> (string \<rightharpoonup> string) \<times> description list
     \<Rightarrow> (string \<rightharpoonup> string) \<times> description list" where
  "keep_walk [] acc = acc"
| "keep_walk (desc # rest) acc = keep_walk rest (keep_step desc acc)"

definition saveDescriptions :: "string \<Rightarrow> desired list \<Rightarrow> media io" where
  "saveDescriptions mediaId descs =
     try_catch
       (bind (findById mediaId) (\<lambda>found.
          case found of
            None \<Rightarrow> throw (new_Error ''Media item not found'')
          | Some m \<Rightarrow>
              bind Date_now (\<lambda>now.
                case collect now descs (Map.empty, []) of (newDescMap, descriptionsToAdd) \<Rightarrow>
                case keep_walk (descriptions m) (newDescMap, []) of (_, descriptionsToKeep) \<Rightarrow>
                  bind (cast_descriptions descriptionsToAdd) (\<lambda>added.
                    let m' = m\<lparr>descriptions := descriptionsToKeep @ added\<rparr>
                    in bind (save m') (\<lambda>_. return m')))))
       (\<lambda>e. throw (new_Error (''Error saving descriptions: '' @ err_message e)))"


section \<open>Identity resolution (\<open>findByUrl\<close>)\<close>

text \<open>The characters of the class \<open>[.*+?^${}()|[\]\\]\<close>, each replaced by itself after a
  backslash.\<close>

definition is_regex_special :: "char \<Rightarrow> bool" where
  "is_regex_special c = (c \<in> set (''.*+?^${}()|[]'' @ [CHR 0x5C]))"

definition escapeRegExp :: "string \<Rightarrow> string" where
  "escapeRegExp s = concat (map (\<lambda>c. if is_regex_special c then [CHR 0x5C, c] else [c]) s)"

text \<open>
  Modelled from the spec: the case-insensitive pattern match of the storage engine
  (section 6), for the patterns escaping produces: ordinary characters and special
  characters after a backslash, found literally anywhere in the subject, ASCII letters
  compared without case. Any other pattern is outside the model and matches nothing.
\<close>

fun literal_of_pattern :: "string \<Rightarrow> string option" where
  "literal_of_pattern [] = Some []"
| "literal_of_pattern [c] = (if is_regex_special c then None else Some [c])"
| "literal_of_pattern (c # d # ds) =
     (if c = CHR 0x5C
      then (if is_regex_special d then map_option (Cons d) (literal_of_pattern ds) else None)
      else if is_regex_special c then None
      else map_option (Cons c) (literal_of_pattern (d # ds)))"

definition to_lower :: "char \<Rightarrow> char" where
  "to_lower c =
     (let n = (of_char c :: nat)
      in if 65 \<le> n \<and> n \<le> 90
         then (case c of Char b0 b1 b2 b3 b4 b5 b6 b7 \<Rightarrow> Char b0 b1 b2 b3 b4 True b6 b7)
         else c)"

fun starts_with :: "string \<Rightarrow> string \<Rightarrow> bool" where
  "starts_with [] s = True"
| "starts_with (p # ps) [] = False"
| "starts_with (p # ps) (c # cs) = (p = c \<and> starts_with ps cs)"

fun contains :: "string \<Rightarrow> string \<Rightarrow> bool" where
  "contains p [] = (p = [])"
| "contains p (c # cs) = (starts_with p (c # cs) \<or> contains p cs)"

definition regex_i :: "string \<Rightarrow> string \<Rightarrow> bool" where
  "regex_i pattern subject =
     (case literal_of_pattern pattern of
        None \<Rightarrow> False
      | Some lit \<Rightarrow> contains (map to_lower lit) (map to_lower subject))"

text \<open>The \<open>$or\<close> query of \<open>findByUrl\<close>. \<open>normalizeUrl\<close> (\<open>utils/urlUtils\<close>) is not among the
  sources and is a parameter.\<close>

definition url_query :: "(string \<Rightarrow> string) \<Rightarrow> string \<Rightarrow> media \<Rightarrow> bool" where
  "url_query normalizeUrl u =
     (let normalizedUrl = normalizeUrl u;
          normalizedWithSlash =
            (if startsWith_slash normalizedUrl then normalizedUrl else CHR ''/'' # normalizedUrl);
          normalizedWithoutSlash =
            (if startsWith_slash normalizedUrl then tl normalizedUrl else normalizedUrl)
      in (\<lambda>a. url a = u \<or> url a = normalizedUrl \<or> url a = normalizedWithSlash
               \<or> url a = normalizedWithoutSlash
               \<or> regex_i (escapeRegExp normalizedUrl) (url a)))"

definition findByUrl :: "(string \<Rightarrow> string) \<Rightarrow> string \<Rightarrow> media option io" where
  "findByUrl normalizeUrl u =
     try_catch
       (if u = [] then return None else findOne (url_query normalizeUrl u))
       (\<lambda>e. return None)"

section \<open>Create or merge (\<open>create\<close>)\<close>

text \<open>The merge of the payload into the record found, with the flag \<open>hasUpdate\<close>.\<close>

definition merge_fields :: "data \<Rightarrow> media \<Rightarrow> media \<times> bool" where
  "merge_fields d existingMedia =
     (case (if data_filename d \<noteq> [] \<and> filename existingMedia \<noteq> data_filename d
            then (existingMedia\<lparr>filename := data_filename d\<rparr>, True)
            else (existingMedia, False)) of (m1, h1) \<Rightarrow>
      case (if data_size d \<noteq> 0 \<and> media_size m1 \<noteq> data_size d
            then (m1\<lparr>media_size := data_size d\<rparr>, True)
            else (m1, h1)) of (m2, h2) \<Rightarrow>
      (if data_mimetype d \<noteq> [] \<and> mimetype m2 \<noteq> data_mimetype d
       then (m2\<lparr>mimetype := data_mimetype d\<rparr>, True)
       else (m2, h2)))"

definition new_descriptions :: "nat \<Rightarrow> string list \<Rightarrow> description list \<Rightarrow> (string \<times> nat) list" where
  "new_descriptions now texts existing =
     filter (\<lambda>(t, c). \<not> (\<exists>e \<in> set existing. desc_text e = t))
       (map (\<lambda>t. (trim t, now)) (filter (\<lambda>t. t \<noteq> [] \<and> trim t \<noteq> []) texts))"

definition merge_existing :: "data \<Rightarrow> media \<Rightarrow> media io" where
  "merge_existing d existingMedia =
     (case merge_fields d existingMedia of (m3, h3) \<Rightarrow>
        bind Date_now (\<lambda>now.
        bind (cast_descriptions (new_descriptions now (data_descriptions d) (descriptions m3))) (\<lambda>added.
          case (if added \<noteq> [] then (m3\<lparr>descriptions := descriptions m3 @ added\<rparr>, True)
                else (m3, h3)) of (m4, h4) \<Rightarrow>
          case (if \<not> isAddedToLibrary m4 then (m4\<lparr>isAddedToLibrary := True\<rparr>, True)
                else (m4, h4)) of (m5, hasUpdate) \<Rightarrow>
            if hasUpdate then bind (save m5) (\<lambda>_. return m5) else return m5)))"

text \<open>\<open>normalizeUrlForStorage\<close> (\<open>utils/urlUtils\<close>) is not among the sources and is a
  parameter, like \<open>normalizeUrl\<close>.\<close>

definition create :: "(string \<Rightarrow> string) \<Rightarrow> (string \<Rightarrow> string) \<Rightarrow> data \<Rightarrow> media io" where
  "create normalizeUrl normalizeUrlForStorage data0 =
     (let normalizedUrl = normalizeUrlForStorage (data_url data0);
          d = data0\<lparr>data_url := normalizedUrl\<rparr>
      in try_catch
           (bind (findByUrl normalizeUrl normalizedUrl) (\<lambda>found.
              case found of
                Some existingMedia \<Rightarrow> merge_existing d existingMedia
              | None \<Rightarrow> MediaModel_create d True))
           (\<lambda>e. if err_code e = Some 11000
                then bind (findByUrl normalizeUrl (data_url d)) (\<lambda>found.
                       case found of
                         Some existingMedia \<Rightarrow> return existingMedia
                       | None \<Rightarrow> throw e)
                else throw e))"

section \<open>Update, delete and the single description operations\<close>

text \<open>
  Modelled from the spec: the atomic update by id of section 6. The fields \<open>$set\<close> can
  write are those of the schema other than the description list; an absent field is left
  as it is; a locator changed to one already stored is the uniqueness violation.
\<close>

record update_fields =
  set_type :: "string option"
  set_url :: "string option"
  set_filename :: "string option"
  set_size :: "nat option"
  set_mimetype :: "string option"
  set_isAddedToLibrary :: "bool option"

definition apply_set :: "update_fields \<Rightarrow> media \<Rightarrow> media" where
  "apply_set f a =
     a\<lparr>media_type := (case set_type f of None \<Rightarrow> media_type a | Some v \<Rightarrow> v),
       url := (case set_url f of None \<Rightarrow> url a | Some v \<Rightarrow> v),
       filename := (case set_filename f of None \<Rightarrow> filename a | Some v \<Rightarrow> v),
       media_size := (case set_size f of None \<Rightarrow> media_size a | Some v \<Rightarrow> v),
       mimetype := (case set_mimetype f of None \<Rightarrow> mimetype a | Some v \<Rightarrow> v),
       isAddedToLibrary := (case set_isAddedToLibrary f of None \<Rightarrow> isAddedToLibrary a | Some v \<Rightarrow> v)\<rparr>"

definition findByIdAndUpdate :: "string \<Rightarrow> update_fields \<Rightarrow> media option io" where
  "findByIdAndUpdate i f = storage_call (\<lambda>w.
     case find (\<lambda>a. media_id a = i) (docs w) of
       None \<Rightarrow> (Inr None, w)
     | Some a \<Rightarrow>
         (let a' = apply_set f a
          in if url a' \<noteq> url a \<and> (\<exists>b \<in> set (docs w). url b = url a')
             then (Inl duplicate_key, w)
             else (Inr (Some a'), w\<lparr>docs := put a' (docs w)\<rparr>)))"

definition update :: "string \<Rightarrow> update_fields \<Rightarrow> media option io" where
  "update mediaId updateFields =
     try_catch (findByIdAndUpdate mediaId updateFields)
       (\<lambda>e. throw (new_Error (''Error updating media item: '' @ err_message e)))"



definition has_prefix :: "string \<Rightarrow> string \<Rightarrow> bool" where
  "has_prefix p s = (take (length p) s = p)"

definition strip_origin :: "string \<Rightarrow> string" where
  "strip_origin s =
     (case (if has_prefix ''https://'' s then Some (drop 8 s)
            else if has_prefix ''http://'' s then Some (drop 7 s) else None) of
        None \<Rightarrow> s
      | Some r \<Rightarrow> if takeWhile (\<lambda>c. c \<noteq> CHR ''/'') r = [] then s
                  else dropWhile (\<lambda>c. c \<noteq> CHR ''/'') r)"



definition addDescription :: "string \<Rightarrow> string \<Rightarrow> media io" where
  "addDescription mediaId descriptionText =
     try_catch
       (bind (findById mediaId) (\<lambda>found.
          case found of
            None \<Rightarrow> throw (new_Error ''Media item not found'')
          | Some m \<Rightarrow>
              bind Date_now (\<lambda>now.
              bind (cast_descriptions [(descriptionText, now)]) (\<lambda>added.
                let m' = m\<lparr>descriptions := descriptions m @ added\<rparr>
                in bind (save m') (\<lambda>_. return m')))))
       (\<lambda>e. throw (new_Error (''Error adding description: '' @ err_message e)))"

definition removeDescription :: "string \<Rightarrow> string \<Rightarrow> media io" where
  "removeDescription mediaId descriptionId =
     try_catch
       (bind (findById mediaId) (\<lambda>found.
          case found of
            None \<Rightarrow> throw (new_Error ''Media item not found'')
          | Some m \<Rightarrow>
              (case find (\<lambda>x. desc_id x = descriptionId) (descriptions m) of
                 None \<Rightarrow> throw (new_Error ''Description not found'')
               | Some description \<Rightarrow>
                   (let m' = m\<lparr>descriptions :=
                                 filter (\<lambda>x. desc_id x \<noteq> desc_id description) (descriptions m)\<rparr>
                    in bind (save m') (\<lambda>_. return m')))))
       (\<lambda>e. throw (new_Error (''Error removing description: '' @ err_message e)))"

fun set_text :: "string \<Rightarrow> string \<Rightarrow> description list \<Rightarrow> description list" where
  "set_text i t [] = []"
| "set_text i t (x # xs) = (if desc_id x = i then x\<lparr>desc_text := t\<rparr> # xs else x # set_text i t xs)"

definition updateDescription :: "string \<Rightarrow> string \<Rightarrow> string \<Rightarrow> media io" where
  "updateDescription mediaId descriptionId newText =
     try_catch
       (bind (findById mediaId) (\<lambda>found.
          case found of
            None \<Rightarrow> throw (new_Error ''Media item not found'')
          | Some m \<Rightarrow>
              (case find (\<lambda>x. desc_id x = descriptionId) (descriptions m) of
                 None \<Rightarrow> throw (new_Error ''Description not found'')
               | Some description \<Rightarrow>
                   (let m' = m\<lparr>descriptions := set_text descriptionId newText (descriptions m)\<rparr>
                    in bind (save m') (\<lambda>_. return m')))))
       (\<lambda>e. throw (new_Error (''Error updating description: '' @ err_message e)))"


section \<open>Batch operations\<close>

text \<open>
  The \<open>for\<close> loop of every batch operation. The body handles one item inside its own
  \<open>try\<close>/\<open>catch\<close> and yields an entry for \<open>errors\<close> or an entry for \<open>results\<close>. An item
  of the array may be \<open>null\<close> or \<open>undefined\<close> (\<open>None\<close>): destructuring it throws a
  \<open>TypeError\<close>, and so does the handler of the body when it reads \<open>item.url\<close> or \<open>item.id\<close>
  for the failure entry. What the handler throws leaves the loop and reaches the handler
  of the whole operation. The message of the \<open>TypeError\<close> is the engine's.
\<close>

definition TypeError_null :: error where
  "TypeError_null = new_Error ''Cannot read properties of null''"

fun batch_loop :: "('i \<Rightarrow> ('f + 's) io) \<Rightarrow> 'i list \<Rightarrow> ('s list \<times> 'f list) io" where
  "batch_loop body [] w = (Inr ([], []), w)"
| "batch_loop body (item # rest) w =
     (case body item w of
        (Inl e, w1) \<Rightarrow> (Inl e, w1)
      | (Inr (Inl failure), w1) \<Rightarrow>
          (case batch_loop body rest w1 of
             (Inl e, w2) \<Rightarrow> (Inl e, w2)
           | (Inr (results, errors), w2) \<Rightarrow> (Inr (results, failure # errors), w2))
      | (Inr (Inr result), w1) \<Rightarrow>
          (case batch_loop body rest w1 of
             (Inl e, w2) \<Rightarrow> (Inl e, w2)
           | (Inr (results, errors), w2) \<Rightarrow> (Inr (result # results, errors), w2)))"

record ('s, 'f) batch_result =
  success :: "'s list"
  failed :: "'f list"
  total :: nat
  successCount :: nat
  failCount :: nat

definition batch_report :: "'i list \<Rightarrow> 's list \<times> 'f list \<Rightarrow> ('s, 'f) batch_result" where
  "batch_report items r =
     \<lparr>success = fst r, failed = snd r, total = length items,
      successCount = length (fst r), failCount = length (snd r)\<rparr>"

text \<open>An item of \<open>batchSaveDescriptions\<close>: \<open>{id?, descriptions}\<close>, where \<open>descriptions\<close> is
  \<open>None\<close> when it is not an array. A failure is \<open>{id, error}\<close>, a success \<open>{id, media}\<close>.\<close>

record save_item =
  item_id :: "string option"
  item_descriptions :: "desired list option"

definition saveItem :: "save_item option \<Rightarrow> ((string \<times> string) + (string \<times> media)) io" where
  "saveItem item =
     try_catch
       (case item of
          None \<Rightarrow> throw TypeError_null
        | Some it \<Rightarrow>
            (case normalizeId (item_id it) of
               None \<Rightarrow> return (Inl (''unknown'', ''Media ID is required''))
             | Some i \<Rightarrow>
                 (case item_descriptions it of
                    None \<Rightarrow> return (Inl (i, ''Descriptions must be an array''))
                  | Some descs \<Rightarrow>
                      bind (saveDescriptions i descs) (\<lambda>updatedMedia.
                        return (Inr (i, updatedMedia))))))
       (\<lambda>e. case item of
               None \<Rightarrow> throw TypeError_null
             | Some it \<Rightarrow>
                 return (Inl (case normalizeId (item_id it) of None \<Rightarrow> ''unknown'' | Some i \<Rightarrow> i,
                              err_message e)))"

definition batchSaveDescriptions ::
  "save_item option list \<Rightarrow> ((string \<times> media, string \<times> string) batch_result) io" where
  "batchSaveDescriptions items =
     try_catch
       (if items = [] then throw (new_Error ''Items array is required and cannot be empty'')
        else bind (batch_loop saveItem items) (\<lambda>r. return (batch_report items r)))
       (\<lambda>e. throw (new_Error (''Error batch saving descriptions: '' @ err_message e)))"

definition MEDIA_TYPE_VALUES :: "string list" where
  "MEDIA_TYPE_VALUES = [''image'', ''video'', ''document'', ''archive'', ''text'', ''other'']"

definition isValidMediaType :: "string \<Rightarrow> bool" where
  "isValidMediaType t = (t \<in> set MEDIA_TYPE_VALUES)"

text \<open>A success of \<open>batchCreate\<close>: \<open>{url, media, isExisting}\<close>; a failure: \<open>{url, error}\<close>.
  The record returned by \<open>create\<close> carries its creation time (section 3 of the
  specification), a \<open>Date\<close>, which is truthy: \<open>media.createdAt || now\<close> is \<open>media.createdAt\<close>.\<close>

record create_success =
  cs_url :: string
  cs_media :: media
  isExisting :: bool

definition createItem ::
  "(string \<Rightarrow> string) \<Rightarrow> (string \<Rightarrow> string) \<Rightarrow> data option
     \<Rightarrow> ((string \<times> string) + create_success) io" where
  "createItem normalizeUrl normalizeUrlForStorage item =
     try_catch
       (case item of
          None \<Rightarrow> throw TypeError_null
        | Some it \<Rightarrow>
            if data_type it = [] \<or> data_url it = []
            then return (Inl (if data_url it = [] then ''unknown'' else data_url it,
                              ''Type and URL are required''))
            else if \<not> isValidMediaType (data_type it)
            then return (Inl (data_url it,
                              ''Invalid file type: '' @ data_type it
                                @ ''. Supported types: image, video, document, archive, text, other''))
            else bind (create normalizeUrl normalizeUrlForStorage it) (\<lambda>m.
                 bind Date_now (\<lambda>now.
                   let created = createdAt m;
                       isNew = (int now - int created < 2000)
                   in return (Inr \<lparr>cs_url = data_url it, cs_media = m, isExisting = \<not> isNew\<rparr>))))
       (\<lambda>e. case item of
               None \<Rightarrow> throw TypeError_null
             | Some it \<Rightarrow>
                 return (Inl (if data_url it = [] then ''unknown'' else data_url it,
                              err_message e)))"

definition batchCreate ::
  "(string \<Rightarrow> string) \<Rightarrow> (string \<Rightarrow> string) \<Rightarrow> data option list
     \<Rightarrow> ((create_success, string \<times> string) batch_result) io" where
  "batchCreate normalizeUrl normalizeUrlForStorage items =
     try_catch
       (if items = [] then throw (new_Error ''Items array is required and cannot be empty'')
        else bind (batch_loop (createItem normalizeUrl normalizeUrlForStorage) items)
               (\<lambda>r. return (batch_report items r)))
       (\<lambda>e. throw (new_Error (''Error batch creating media items: '' @ err_message e)))"

text \<open>An item of \<open>batchAddDescription\<close>: \<open>{id?, texts}\<close>, where \<open>texts\<close> is \<open>None\<close> when
  it is not an array. A success is \<open>{id, addedCount}\<close>.\<close>

record add_item =
  add_id :: "string option"
  add_texts :: "string list option"

definition addItem :: "add_item option \<Rightarrow> ((string \<times> string) + (string \<times> nat)) io" where
  "addItem item =
     try_catch
       (case item of
          None \<Rightarrow> throw TypeError_null
        | Some it \<Rightarrow>
            (case normalizeId (add_id it) of
               None \<Rightarrow> return (Inl (''unknown'', ''Media ID is required''))
             | Some i \<Rightarrow>
                 (case (case add_texts it of None \<Rightarrow> [] | Some texts \<Rightarrow> texts) of
                    [] \<Rightarrow> return (Inl (i, ''Description texts array is required and cannot be empty''))
                  | t # ts \<Rightarrow>
                      bind (findById i) (\<lambda>found.
                        case found of
                          None \<Rightarrow> return (Inl (i, ''Media item not found''))
                        | Some m \<Rightarrow>
                            bind Date_now (\<lambda>now.
                            bind (cast_descriptions
                                    (new_descriptions now (t # ts) (descriptions m))) (\<lambda>added.
                              if added \<noteq> []
                              then bind (save (m\<lparr>descriptions := descriptions m @ added\<rparr>))
                                     (\<lambda>_. return (Inr (i, length added)))
                              else return (Inr (i, length added))))))))
       (\<lambda>e. case item of
               None \<Rightarrow> throw TypeError_null
             | Some it \<Rightarrow>
                 return (Inl (case normalizeId (add_id it) of None \<Rightarrow> ''unknown'' | Some i \<Rightarrow> i,
                              err_message e)))"

definition batchAddDescription ::
  "add_item option list \<Rightarrow> ((string \<times> nat, string \<times> string) batch_result) io" where
  "batchAddDescription items =
     try_catch
       (if items = [] then throw (new_Error ''Items array is required and cannot be empty'')
        else bind (batch_loop addItem items) (\<lambda>r. return (batch_report items r)))
       (\<lambda>e. throw (new_Error (''Error batch adding descriptions: '' @ err_message e)))"

section \<open>The specification's reading of reconciliation\<close>

text \<open>
  The desired list as section 4.4 of the specification reads it: an entry counts when its
  trimmed text is not empty; it is identified when it carries an identifier and new
  otherwise. The text wanted for an identifier is that of the last identified entry
  naming it. The result keeps the current entries that are wanted, in their order, with
  the wanted text, and appends one fresh entry for each new entry.
\<close>

definition is_identified :: "string \<Rightarrow> desired \<Rightarrow> bool" where
  "is_identified i d = (wanted_text d \<noteq> [] \<and> normalizeId (in_id d) = Some i)"

definition is_new :: "desired \<Rightarrow> bool" where
  "is_new d = (wanted_text d \<noteq> [] \<and> normalizeId (in_id d) = None)"

definition desired_text :: "desired list \<Rightarrow> string \<Rightarrow> string option" where
  "desired_text D i =
     (case filter (is_identified i) D of [] \<Rightarrow> None | ds \<Rightarrow> Some (wanted_text (last ds)))"

definition retained :: "description list \<Rightarrow> desired list \<Rightarrow> description list" where
  "retained C D =
     map (\<lambda>c. c\<lparr>desc_text := the (desired_text D (desc_id c))\<rparr>)
       (filter (\<lambda>c. desired_text D (desc_id c) \<noteq> None) C)"

definition created :: "nat \<Rightarrow> nat \<Rightarrow> desired list \<Rightarrow> description list" where
  "created now n D =
     map (\<lambda>(k, d). \<lparr>desc_id = oid_of (n + k), desc_text = wanted_text d, desc_createdAt = now\<rparr>)
       (enumerate 0 (filter is_new D))"

definition reconciled :: "nat \<Rightarrow> nat \<Rightarrow> description list \<Rightarrow> desired list \<Rightarrow> description list" where
  "reconciled now n C D = retained C D @ created now n D"

text \<open>The description texts a merge appends, as section 4.3 of the specification reads
  them: the trimmed texts of the payload that are not empty and not among the texts the
  asset already has.\<close>

definition appended_texts :: "string list \<Rightarrow> description list \<Rightarrow> string list" where
  "appended_texts texts existing =
     filter (\<lambda>t. t \<notin> desc_text ` set existing)
       (map trim (filter (\<lambda>t. t \<noteq> [] \<and> trim t \<noteq> []) texts))"

section \<open>Vocabulary of the properties\<close>

text \<open>An item is malformed when the validation at the head of the loop body rejects it;
  its key is what the failure entry carries.\<close>

definition malformed_create :: "data \<Rightarrow> bool" where
  "malformed_create item = (data_type item = [] \<or> data_url item = [] \<or> \<not> isValidMediaType (data_type item))"

definition create_key :: "data \<Rightarrow> string" where
  "create_key item = (if data_url item = [] then ''unknown'' else data_url item)"

definition malformed_save :: "save_item \<Rightarrow> bool" where
  "malformed_save item = (normalizeId (item_id item) = None \<or> item_descriptions item = None)"

definition save_key :: "save_item \<Rightarrow> string" where
  "save_key item = (case normalizeId (item_id item) of None \<Rightarrow> ''unknown'' | Some i \<Rightarrow> i)"


text \<open>The stored flag of the asset with identifier \<open>i\<close> is true.\<close>

definition flagged :: "string \<Rightarrow> world \<Rightarrow> bool" where
  "flagged i w = (map_option isAddedToLibrary (find (\<lambda>a. media_id a = i) (docs w)) = Some True)"

text \<open>An operation keeps a property of the store and returns only values with \<open>R\<close>.\<close>

definition keeps :: "(world \<Rightarrow> bool) \<Rightarrow> 'a io \<Rightarrow> ('a \<Rightarrow> bool) \<Rightarrow> bool" where
  "keeps K m R = (\<forall>w. K w \<longrightarrow> K (snd (m w)) \<and> (\<forall>x. fst (m w) = Inr x \<longrightarrow> R x))"

text \<open>The operations of the service that write assets and leave them in the store.\<close>

datatype operation =
    Create data
  | Update string update_fields
  | AddDescription string string
  | RemoveDescription string string
  | UpdateDescription string string string
  | SaveDescriptions string "desired list"
  | BatchCreate "data option list"
  | BatchSaveDescriptions "save_item option list"
  | BatchAddDescription "add_item option list"

fun perform :: "(string \<Rightarrow> string) \<Rightarrow> (string \<Rightarrow> string) \<Rightarrow> operation \<Rightarrow> world \<Rightarrow> world" where
  "perform nrm nfs (Create d) w = snd (create nrm nfs d w)"
| "perform nrm nfs (Update i f) w = snd (update i f w)"
| "perform nrm nfs (AddDescription i t) w = snd (addDescription i t w)"
| "perform nrm nfs (RemoveDescription i k) w = snd (removeDescription i k w)"
| "perform nrm nfs (UpdateDescription i k t) w = snd (updateDescription i k t w)"
| "perform nrm nfs (SaveDescriptions i ds) w = snd (saveDescriptions i ds w)"
| "perform nrm nfs (BatchCreate items) w = snd (batchCreate nrm nfs items w)"
| "perform nrm nfs (BatchSaveDescriptions items) w = snd (batchSaveDescriptions items w)"
| "perform nrm nfs (BatchAddDescription items) w = snd (batchAddDescription items w)"

fun clears_flag :: "operation \<Rightarrow> bool" where
  "clears_flag (Update i f) = (set_isAddedToLibrary f = Some False)"
| "clears_flag _ = False"

section \<open>Example stores\<close>

definition asset0 :: media where
  "asset0 = \<lparr>media_id = ''m1'', media_type = ''image'', url = ''/img/a.png'',
     filename = ''a.png'', media_size = 10, mimetype = ''image/png'',
     descriptions = [\<lparr>desc_id = ''d1'', desc_text = ''old'', desc_createdAt = 1\<rparr>,
                     \<lparr>desc_id = ''d2'', desc_text = ''gone'', desc_createdAt = 2\<rparr>],
     isAddedToLibrary = True, createdAt = 1\<rparr>"

definition world0 :: world where
  "world0 = \<lparr>docs = [asset0], next_oid = 0, clock = 5000, script = []\<rparr>"

definition desired0 :: "desired list" where
  "desired0 = [\<lparr>in_id = Some ''d1'', in_text = Some '' kept ''\<rparr>,
               \<lparr>in_id = None, in_text = Some ''new''\<rparr>]"

definition blank0 :: "desired list" where
  "blank0 = [\<lparr>in_id = Some ''d1'', in_text = Some ''  ''\<rparr>,
             \<lparr>in_id = Some ''d2'', in_text = Some ''stays''\<rparr>]"

definition asset_ab :: media where
  "asset_ab = \<lparr>media_id = ''m7'', media_type = ''image'', url = ''/a/b.png'',
     filename = ''b.png'', media_size = 3, mimetype = ''image/png'',
     descriptions = [], isAddedToLibrary = True, createdAt = 1\<rparr>"

definition world_ab :: world where
  "world_ab = \<lparr>docs = [asset_ab], next_oid = 0, clock = 5000, script = []\<rparr>"

text \<open>A normalizer for the examples: strip scheme and host, give the path a leading
  separator.\<close>

definition example_normalizer :: "string \<Rightarrow> string" where
  "example_normalizer s =
     (let p = strip_origin s in if startsWith_slash p then p else CHR ''/'' # p)"

definition world_empty :: world where
  "world_empty = \<lparr>docs = [], next_oid = 0, clock = 5000, script = []\<rparr>"

definition payload1 :: data where
  "payload1 = \<lparr>data_type = ''image'', data_url = ''/img/a.png'', data_filename = ''a.png'',
     data_size = 10, data_mimetype = ''image/png'', data_descriptions = [''first'']\<rparr>"

definition payload2 :: data where
  "payload2 = \<lparr>data_type = ''image'', data_url = ''img/a.png'', data_filename = ''a2.png'',
     data_size = 0, data_mimetype = [], data_descriptions = ['' first '', ''second'']\<rparr>"

definition rival :: data where
  "rival = \<lparr>data_type = ''image'', data_url = ''/img/a.png'', data_filename = ''rival.png'',
     data_size = 7, data_mimetype = ''image/png'', data_descriptions = []\<rparr>"


definition asset_xab :: media where
  "asset_xab = \<lparr>media_id = ''m6'', media_type = ''image'', url = ''/x/a/b.png'',
     filename = ''b.png'', media_size = 4, mimetype = ''image/png'',
     descriptions = [], isAddedToLibrary = True, createdAt = 1\<rparr>"

definition world_xab :: world where
  "world_xab = \<lparr>docs = [asset_xab, asset_ab], next_oid = 0, clock = 5000, script = []\<rparr>"

definition world_lookup_fails :: world where
  "world_lookup_fails = world_empty\<lparr>script := [Fail (new_Error ''connection lost'')]\<rparr>"

definition world_race :: world where
  "world_race = world_empty\<lparr>script := [Proceed, Race rival, Proceed]\<rparr>"

definition world_race_lost :: world where
  "world_race_lost = world_empty\<lparr>script := [Proceed, Race rival, Fail (new_Error ''connection lost'')]\<rparr>"

definition good_save :: save_item where
  "good_save = \<lparr>item_id = Some ''m1'', item_descriptions = Some desired0\<rparr>"

definition unset_flag :: update_fields where
  "unset_flag = \<lparr>set_type = None, set_url = None, set_filename = None, set_size = None,
     set_mimetype = None, set_isAddedToLibrary = Some False\<rparr>"

section \<open>Properties\<close>

subsection \<open>Reconciliation\<close>

lemma desired_text_Nil: "desired_text [] i = None"
  by (simp add: desired_text_def)

lemma desired_text_Cons:
  "desired_text (d # D) i =
     (case desired_text D i of Some t \<Rightarrow> Some t
      | None \<Rightarrow> if is_identified i d then Some (wanted_text d) else None)"
  by (auto simp: desired_text_def split: list.splits)

lemma collect_map:
  "fst (collect now D (M, A)) i = (case desired_text D i of None \<Rightarrow> M i | Some t \<Rightarrow> Some t)"
proof (induction D arbitrary: M A)
  case Nil
  show ?case by (simp add: desired_text_Nil)
next
  case (Cons d D)
  show ?case
    by (cases "normalizeId (in_id d)")
       (auto simp: collect_step_def Let_def Cons.IH desired_text_Cons is_identified_def
             split: option.splits)
qed

lemma collect_adds:
  "snd (collect now D (M, A)) = A @ map (\<lambda>d. (wanted_text d, now)) (filter is_new D)"
proof (induction D arbitrary: M A)
  case Nil
  show ?case by simp
next
  case (Cons d D)
  show ?case
    by (cases "normalizeId (in_id d)")
       (auto simp: collect_step_def Let_def Cons.IH is_new_def)
qed

lemma desired_text_empty_id: "desired_text D [] = None"
  by (induction D) (auto simp: desired_text_Nil desired_text_Cons is_identified_def normalizeId_def split: option.splits)

lemma keep_walk_distinct:
  "distinct (map desc_id C) \<Longrightarrow>
   snd (keep_walk C (M, K)) =
     K @ map (\<lambda>c. c\<lparr>desc_text := the (M (desc_id c))\<rparr>)
           (filter (\<lambda>c. desc_id c \<noteq> [] \<and> M (desc_id c) \<noteq> None) C)"
proof (induction C arbitrary: M K)
  case Nil
  show ?case by simp
next
  case (Cons c C)
  have d: "distinct (map desc_id C)" and n: "desc_id c \<notin> desc_id ` set C"
    using Cons.prems by auto
  have agree: "\<And>x. x \<in> set C \<Longrightarrow> desc_id x \<noteq> desc_id c"
    using n by (metis imageI)
  show ?case
  proof (cases "desc_id c \<noteq> [] \<and> M (desc_id c) \<noteq> None")
    case True
    then obtain t where t: "M (desc_id c) = Some t" by auto
    have "keep_step c (M, K) = (M(desc_id c := None), K @ [c\<lparr>desc_text := t\<rparr>])"
      using True t by (simp add: keep_step_def normalizeId_def)
    moreover have "map (\<lambda>x. x\<lparr>desc_text := the ((M(desc_id c := None)) (desc_id x))\<rparr>)
           (filter (\<lambda>x. desc_id x \<noteq> [] \<and> (M(desc_id c := None)) (desc_id x) \<noteq> None) C)
        = map (\<lambda>x. x\<lparr>desc_text := the (M (desc_id x))\<rparr>)
           (filter (\<lambda>x. desc_id x \<noteq> [] \<and> M (desc_id x) \<noteq> None) C)"
      using agree by (intro map_cong filter_cong refl) auto
    ultimately show ?thesis using True t Cons.IH[OF d] by simp
  next
    case False
    then have "keep_step c (M, K) = (M, K)"
      by (auto simp: keep_step_def normalizeId_def split: option.splits)
    then show ?thesis using False Cons.IH[OF d] by auto
  qed
qed


lemma storage_call_quiet: "script w = [] \<Longrightarrow> storage_call f w = f w"
  by (simp add: storage_call_def)

lemma find_put:
  "find (\<lambda>a. media_id a = i) ds = Some m \<Longrightarrow> media_id m' = i \<Longrightarrow>
   find (\<lambda>a. media_id a = i) (put m' ds) = Some m'"
  by (induction ds) (auto split: if_splits)

lemma find_id: "find (\<lambda>a. media_id a = i) ds = Some m \<Longrightarrow> media_id m = i"
  by (induction ds) (auto split: if_splits)

lemma collect_result:
  "collect now D (Map.empty, []) =
     (desired_text D, map (\<lambda>d. (wanted_text d, now)) (filter is_new D))"
proof -
  have "fst (collect now D (Map.empty, [])) = desired_text D"
    by (rule ext) (simp add: collect_map split: option.splits)
  moreover have "snd (collect now D (Map.empty, [])) = map (\<lambda>d. (wanted_text d, now)) (filter is_new D)"
    by (simp add: collect_adds)
  ultimately show ?thesis by (simp add: prod_eq_iff)
qed

lemma keep_walk_result:
  assumes "distinct (map desc_id C)"
  shows "snd (keep_walk C (desired_text D, [])) = retained C D"
proof -
  have "filter (\<lambda>c. desc_id c \<noteq> [] \<and> desired_text D (desc_id c) \<noteq> None) C
      = filter (\<lambda>c. desired_text D (desc_id c) \<noteq> None) C"
    by (rule filter_cong) (auto simp: desired_text_empty_id)
  then show ?thesis
    using keep_walk_distinct[OF assms, of "desired_text D" "[]"] by (simp add: retained_def)
qed

lemma cast_created:
  "cast_descriptions (map (\<lambda>d. (wanted_text d, now)) xs) w =
     (Inr (map (\<lambda>(k, d). \<lparr>desc_id = oid_of (next_oid w + k), desc_text = wanted_text d, desc_createdAt = now\<rparr>)
             (enumerate 0 xs)),
      w\<lparr>next_oid := next_oid w + length xs\<rparr>)"
  by (simp add: cast_descriptions_def enumerate_eq_zip zip_map2 case_prod_unfold comp_def)

lemma saveDescriptions_quiet:
  assumes q: "script w = []"
    and f: "find (\<lambda>a. media_id a = mediaId) (docs w) = Some m"
    and d: "distinct (map desc_id (descriptions m))"
  shows "saveDescriptions mediaId D w =
     (Inr (m\<lparr>descriptions := reconciled (clock w) (next_oid w) (descriptions m) D\<rparr>),
      w\<lparr>next_oid := next_oid w + length (filter is_new D),
        docs := put (m\<lparr>descriptions := reconciled (clock w) (next_oid w) (descriptions m) D\<rparr>) (docs w)\<rparr>)"
proof -
  obtain M' K where kw: "keep_walk (descriptions m) (desired_text D, []) = (M', K)"
    by (cases "keep_walk (descriptions m) (desired_text D, [])")
  with keep_walk_result[OF d, of D] have K: "K = retained (descriptions m) D" by simp
  show ?thesis
    using q f
    by (simp add: saveDescriptions_def try_catch_def bind_def findById_def findOne_def
        storage_call_quiet Date_now_def collect_result kw K cast_created save_def return_def
        reconciled_def created_def Let_def)
qed

lemmas example_defs = asset0_def world0_def desired0_def blank0_def

text \<open>
  C1. In a store where every call proceeds, reconciling the asset's current list \<open>C\<close>
  (identifiers distinct, as the data model requires) with the desired list \<open>D\<close> returns and
  persists \<open>reconciled\<close>. The desired entries whose trimmed text is empty are dropped first;
  of those left, the identified entries are the ones with an identifier. The result is:
  the entries of \<open>C\<close> whose identifier is named by an identified entry, in their order, each
  with the trimmed text of the last identified entry naming it; then one new entry, with a
  new identifier and the current time, for each entry of \<open>D\<close> without identifier and with
  non-empty trimmed text, in the order of \<open>D\<close>. Every other entry of \<open>C\<close> is absent.
\<close>

theorem saveDescriptions_reconciles:
  assumes "script w = []"
    and "find (\<lambda>a. media_id a = mediaId) (docs w) = Some m"
    and "distinct (map desc_id (descriptions m))"
  shows "fst (saveDescriptions mediaId D w)
           = Inr (m\<lparr>descriptions := reconciled (clock w) (next_oid w) (descriptions m) D\<rparr>)
       \<and> find (\<lambda>a. media_id a = mediaId) (docs (snd (saveDescriptions mediaId D w)))
           = Some (m\<lparr>descriptions := reconciled (clock w) (next_oid w) (descriptions m) D\<rparr>)"
proof -
  have i: "media_id m = mediaId" using assms(2) by (rule find_id)
  show ?thesis
    using find_put[OF assms(2), of "m\<lparr>descriptions := reconciled (clock w) (next_oid w) (descriptions m) D\<rparr>"] i
    by (simp add: saveDescriptions_quiet[OF assms])
qed

lemmas recon_eval = reconciled_def retained_def created_def desired_text_def is_identified_def
  is_new_def wanted_text_def trim_def is_space_def normalizeId_def oid_of_def

theorem saveDescriptions_reconciles_witness:
  "fst (saveDescriptions ''m1'' desired0 world0)
     = Inr (asset0\<lparr>descriptions :=
              [\<lparr>desc_id = ''d1'', desc_text = ''kept'', desc_createdAt = 1\<rparr>,
               \<lparr>desc_id = ''o'', desc_text = ''new'', desc_createdAt = 5000\<rparr>]\<rparr>)
   \<and> fst (saveDescriptions ''m1'' blank0 world0)
     = Inr (asset0\<lparr>descriptions := [\<lparr>desc_id = ''d2'', desc_text = ''stays'', desc_createdAt = 2\<rparr>]\<rparr>)"
  using saveDescriptions_reconciles[of world0 "''m1''" asset0 desired0]
    saveDescriptions_reconciles[of world0 "''m1''" asset0 blank0]
  by (simp add: example_defs recon_eval)

lemma oid_of_inj: "oid_of a = oid_of b \<Longrightarrow> a = b"
  by (metis oid_of_def length_replicate nat.inject)

lemma retained_append: "retained (A @ B) D = retained A D @ retained B D"
  by (simp add: retained_def)

lemma retained_retained: "retained (retained C D) D = retained C D"
  by (induction C) (auto simp: retained_def)

lemma retained_created:
  assumes "\<forall>k. desired_text D (oid_of (n + k)) = None"
  shows "retained (created t n D) D = []"
  using assms by (auto simp: retained_def created_def filter_empty_conv)

lemma reconciled_again:
  assumes "\<forall>k. desired_text D (oid_of (n + k)) = None"
  shows "retained (reconciled t n C D) D = retained C D"
  by (simp add: reconciled_def retained_append retained_retained retained_created[OF assms])

lemma ids_retained: "map desc_id (retained C D) = filter (\<lambda>i. desired_text D i \<noteq> None) (map desc_id C)"
  by (induction C) (auto simp: retained_def)

lemma ids_created: "map desc_id (created t n D) = map (\<lambda>k. oid_of (n + k)) [0..<length (filter is_new D)]"
proof -
  have "map desc_id (created t n D)
      = map (\<lambda>k. oid_of (n + k)) (map fst (enumerate 0 (filter is_new D)))"
    unfolding created_def map_map by (rule map_cong) auto
  also have "map fst (enumerate 0 (filter is_new D)) = [0..<length (filter is_new D)]"
    by simp
  finally show ?thesis .
qed

lemma distinct_created: "distinct (map desc_id (created t n D))"
  by (auto simp: ids_created distinct_map inj_on_def dest: oid_of_inj)

lemma distinct_reconciled:
  assumes "distinct (map desc_id C)" and "\<forall>k. desired_text D (oid_of (n + k)) = None"
  shows "distinct (map desc_id (reconciled t n C D))"
proof -
  have "\<And>i. i \<in> set (map desc_id (created t n D)) \<Longrightarrow> desired_text D i = None"
    using assms(2) by (auto simp: ids_created)
  moreover have "\<And>i. i \<in> set (map desc_id (retained C D)) \<Longrightarrow> desired_text D i \<noteq> None"
    by (simp add: ids_retained)
  ultimately have "set (map desc_id (retained C D)) \<inter> set (map desc_id (created t n D)) = {}"
    by blast
  moreover have "distinct (map desc_id (retained C D))"
    using assms(1) by (simp add: ids_retained)
  ultimately show ?thesis
    using distinct_created[of t n D] by (simp add: reconciled_def)
qed

text \<open>
  C7 (as amended). In a store where every call proceeds, for an asset whose description
  identifiers are distinct and a desired list \<open>D\<close> that names no identifier the store has
  yet to issue: reconciling with \<open>D\<close> and reconciling again with \<open>D\<close> leaves the retained
  entries as they are, and replaces the entries the first call created by new entries with
  the same texts in the same order and the next identifiers. When \<open>D\<close> holds no new entry
  the second call returns what the first returned.
\<close>

theorem saveDescriptions_twice:
  assumes q: "script w = []"
    and f: "find (\<lambda>a. media_id a = mediaId) (docs w) = Some m"
    and d: "distinct (map desc_id (descriptions m))"
    and u: "\<forall>k. desired_text D (oid_of (next_oid w + k)) = None"
  shows "fst (saveDescriptions mediaId D w)
           = Inr (m\<lparr>descriptions := retained (descriptions m) D @ created (clock w) (next_oid w) D\<rparr>)
       \<and> fst (saveDescriptions mediaId D (snd (saveDescriptions mediaId D w)))
           = Inr (m\<lparr>descriptions := retained (descriptions m) D
                    @ created (clock w) (next_oid w + length (filter is_new D)) D\<rparr>)
       \<and> (filter is_new D = [] \<longrightarrow>
            fst (saveDescriptions mediaId D (snd (saveDescriptions mediaId D w)))
              = fst (saveDescriptions mediaId D w))"
proof -
  let ?R = "reconciled (clock w) (next_oid w) (descriptions m) D"
  let ?m1 = "m\<lparr>descriptions := ?R\<rparr>"
  let ?w1 = "w\<lparr>next_oid := next_oid w + length (filter is_new D), docs := put ?m1 (docs w)\<rparr>"
  have first: "saveDescriptions mediaId D w = (Inr ?m1, ?w1)"
    by (rule saveDescriptions_quiet[OF q f d])
  have i: "media_id m = mediaId" using f by (rule find_id)
  have q1: "script ?w1 = []" using q by simp
  have f1: "find (\<lambda>a. media_id a = mediaId) (docs ?w1) = Some ?m1"
    using find_put[OF f, of ?m1] i by simp
  have d1: "distinct (map desc_id (descriptions ?m1))"
    using distinct_reconciled[OF d u] by simp
  have second: "fst (saveDescriptions mediaId D ?w1)
      = Inr (?m1\<lparr>descriptions := reconciled (clock ?w1) (next_oid ?w1) (descriptions ?m1) D\<rparr>)"
    by (simp add: saveDescriptions_quiet[OF q1 f1 d1])
  have again: "reconciled (clock ?w1) (next_oid ?w1) (descriptions ?m1) D
      = retained (descriptions m) D @ created (clock w) (next_oid w + length (filter is_new D)) D"
    using reconciled_again[OF u, of "clock w" "descriptions m"]
    by (simp add: reconciled_def[of _ _ "reconciled (clock w) (next_oid w) (descriptions m) D"])
  have a: "fst (saveDescriptions mediaId D w)
      = Inr (m\<lparr>descriptions := retained (descriptions m) D @ created (clock w) (next_oid w) D\<rparr>)"
    by (simp add: first reconciled_def)
  have w1: "snd (saveDescriptions mediaId D w) = ?w1"
    by (simp add: first)
  have b: "fst (saveDescriptions mediaId D (snd (saveDescriptions mediaId D w)))
      = Inr (m\<lparr>descriptions := retained (descriptions m) D
               @ created (clock w) (next_oid w + length (filter is_new D)) D\<rparr>)"
    unfolding w1 using second again by simp
  have c: "filter is_new D = [] \<longrightarrow>
      fst (saveDescriptions mediaId D (snd (saveDescriptions mediaId D w)))
        = fst (saveDescriptions mediaId D w)"
    unfolding a b by (simp add: created_def)
  show ?thesis using a b c by blast
qed

theorem saveDescriptions_twice_witness:
  "fst (saveDescriptions ''m1'' desired0 (snd (saveDescriptions ''m1'' desired0 world0)))
     = Inr (asset0\<lparr>descriptions :=
              [\<lparr>desc_id = ''d1'', desc_text = ''kept'', desc_createdAt = 1\<rparr>,
               \<lparr>desc_id = ''oo'', desc_text = ''new'', desc_createdAt = 5000\<rparr>]\<rparr>)"
  using saveDescriptions_twice[of world0 "''m1''" asset0 desired0]
  by (simp add: example_defs recon_eval)

text \<open>With a new entry in the desired list the second call is not a no-op: the entry
  created by the first call is dropped and created again under another identifier.\<close>

theorem second_reconciliation_changes_list:
  "fst (saveDescriptions ''m1'' desired0 (snd (saveDescriptions ''m1'' desired0 world0)))
     \<noteq> fst (saveDescriptions ''m1'' desired0 world0)"
proof -
  have q: "script world0 = []" and f: "find (\<lambda>a. media_id a = ''m1'') (docs world0) = Some asset0"
    and d: "distinct (map desc_id (descriptions asset0))"
    by (simp_all add: example_defs)
  have 1: "saveDescriptions ''m1'' desired0 world0 = 
     (Inr (asset0\<lparr>descriptions := reconciled (clock world0) (next_oid world0) (descriptions asset0) desired0\<rparr>),
      world0\<lparr>next_oid := next_oid world0 + length (filter is_new desired0),
        docs := put (asset0\<lparr>descriptions := reconciled (clock world0) (next_oid world0) (descriptions asset0) desired0\<rparr>) (docs world0)\<rparr>)"
    by (rule saveDescriptions_quiet[OF q f d])
  show ?thesis
    apply (simp add: 1)
    apply (simp add: example_defs recon_eval saveDescriptions_def try_catch_def bind_def findById_def findOne_def
        storage_call_def Date_now_def collect_step_def keep_step_def cast_descriptions_def save_def return_def Let_def)
    done
qed

subsection \<open>Identity resolution\<close>

lemma bs_special: "is_regex_special (CHR 0x5C)"
  by (simp add: is_regex_special_def)

lemma literal_of_escape: "literal_of_pattern (escapeRegExp s) = Some s"
proof (induction s)
  case Nil
  show ?case by (simp add: escapeRegExp_def)
next
  case (Cons c s)
  have e: "escapeRegExp (c # s) = (if is_regex_special c then [CHR 0x5C, c] else [c]) @ escapeRegExp s"
    by (simp add: escapeRegExp_def)
  show ?case
  proof (cases "is_regex_special c")
    case True
    then show ?thesis using Cons.IH by (simp add: e)
  next
    case False
    then have "c \<noteq> CHR 0x5C" using bs_special by auto
    then show ?thesis unfolding e using False Cons.IH
      by (cases "escapeRegExp s") simp_all
  qed
qed

lemma regex_i_escape:
  "regex_i (escapeRegExp n) s = contains (map to_lower n) (map to_lower s)"
  by (simp add: regex_i_def literal_of_escape)

lemma script_other_writer: "script (other_writer d w) = script w"
  by (simp add: other_writer_def insert_media_def cast_descriptions_def Let_def)

lemma findOne_script: "script (snd (findOne P w)) = tl (script w)"
  by (simp add: findOne_def storage_call_def script_other_writer split: list.splits event.splits)

lemma findByUrl_script:
  assumes "u \<noteq> []"
  shows "script (snd (findByUrl nrm u w)) = tl (script w)"
proof -
  obtain r x where f: "findOne (url_query nrm u) w = (r, x)"
    by (cases "findOne (url_query nrm u) w")
  then have "script x = tl (script w)"
    using findOne_script[of "url_query nrm u" w] by simp
  then show ?thesis
    using assms f by (cases r) (simp_all add: findByUrl_def try_catch_def return_def)
qed

lemma findByUrl_quiet:
  "script w = [] \<Longrightarrow> u \<noteq> [] \<Longrightarrow>
   findByUrl nrm u w = (Inr (find (url_query nrm u) (docs w)), w)"
  by (simp add: findByUrl_def try_catch_def findOne_def storage_call_quiet)

lemma find_first: "a \<in> set xs \<Longrightarrow> P a \<Longrightarrow> \<exists>b. find P xs = Some b \<and> P b"
  by (induction xs) auto

lemma url_query_unfold:
  "url_query nrm u b =
     (url b = u \<or> url b = nrm u
      \<or> url b = (if startsWith_slash (nrm u) then nrm u else CHR ''/'' # nrm u)
      \<or> url b = (if startsWith_slash (nrm u) then tl (nrm u) else nrm u)
      \<or> contains (map to_lower (nrm u)) (map to_lower (url b)))"
  by (simp add: url_query_def Let_def regex_i_escape)

lemma find_split:
  "find P (pre @ a # post) = (case find P pre of Some b \<Rightarrow> Some b | None \<Rightarrow> if P a then Some a else find P post)"
  by (induction pre) auto

text \<open>
  C3 (as amended). In a store where the call proceeds and that holds an asset with locator
  \<open>/a/b.png\<close>, for every non-empty query whose normalized form is \<open>/a/b.png\<close> or
  \<open>a/b.png\<close> up to the case of letters (as for \<open>a/b.png\<close>, \<open>http://host/a/b.png\<close> and
  case-varied forms of the path): the asset satisfies the resolver's query, and the
  resolver returns the first stored record that satisfies it: the asset when no record
  stored before it satisfies the query, and otherwise the first such record. The query
  is the disjunction of: locator equal to the original string, to the normalized form, to
  the normalized form with a leading separator, to the normalized form without it, or
  containing the normalized form (metacharacters escaped, hence literal) without regard
  to case. The resolver makes one storage call.
\<close>

theorem findByUrl_tolerant:
  assumes "script w = []" and "docs w = pre @ a # post" and "url a = ''/a/b.png''" and "u \<noteq> []"
    and "map to_lower (normalizeUrl u) \<in> {''/a/b.png'', ''a/b.png''}"
  shows "url_query normalizeUrl u a
       \<and> findByUrl normalizeUrl u w
           = (Inr (Some (case find (url_query normalizeUrl u) pre of Some b \<Rightarrow> b | None \<Rightarrow> a)), w)
       \<and> (\<forall>b. url_query normalizeUrl u b =
             (url b = u \<or> url b = normalizeUrl u
              \<or> url b = (if startsWith_slash (normalizeUrl u) then normalizeUrl u
                          else CHR ''/'' # normalizeUrl u)
              \<or> url b = (if startsWith_slash (normalizeUrl u) then tl (normalizeUrl u)
                          else normalizeUrl u)
              \<or> contains (map to_lower (normalizeUrl u)) (map to_lower (url b))))
       \<and> (\<forall>w'. script (snd (findByUrl normalizeUrl u w')) = tl (script w'))"
proof -
  have "contains (map to_lower (normalizeUrl u)) ''/a/b.png''"
    using assms(5) by auto
  then have m: "url_query normalizeUrl u a"
    using assms(3) by (simp add: url_query_def Let_def regex_i_escape to_lower_def)
  have "find (url_query normalizeUrl u) (docs w)
          = Some (case find (url_query normalizeUrl u) pre of Some b \<Rightarrow> b | None \<Rightarrow> a)"
    using m by (simp add: assms(2) find_split split: option.splits)
  then have r: "findByUrl normalizeUrl u w
           = (Inr (Some (case find (url_query normalizeUrl u) pre of Some b \<Rightarrow> b | None \<Rightarrow> a)), w)"
    using findByUrl_quiet[OF assms(1,4), of normalizeUrl] by simp
  have s: "\<forall>w'. script (snd (findByUrl normalizeUrl u w')) = tl (script w')"
    using assms(4) by (simp add: findByUrl_script)
  have q: "\<forall>b. url_query normalizeUrl u b =
             (url b = u \<or> url b = normalizeUrl u
              \<or> url b = (if startsWith_slash (normalizeUrl u) then normalizeUrl u
                          else CHR ''/'' # normalizeUrl u)
              \<or> url b = (if startsWith_slash (normalizeUrl u) then tl (normalizeUrl u)
                          else normalizeUrl u)
              \<or> contains (map to_lower (normalizeUrl u)) (map to_lower (url b)))"
    using url_query_unfold[of normalizeUrl u] by blast
  show ?thesis using m r q s by blast
qed

theorem findByUrl_tolerant_witness:
  "fst (findByUrl strip_origin ''a/b.png'' world_ab) = Inr (Some asset_ab)
   \<and> fst (findByUrl strip_origin ''http://host/a/b.png'' world_ab) = Inr (Some asset_ab)
   \<and> fst (findByUrl strip_origin ''/A/B.PNG'' world_ab) = Inr (Some asset_ab)"
  using findByUrl_tolerant[of world_ab "[]" asset_ab "[]" "''a/b.png''" strip_origin]
    findByUrl_tolerant[of world_ab "[]" asset_ab "[]" "''http://host/a/b.png''" strip_origin]
    findByUrl_tolerant[of world_ab "[]" asset_ab "[]" "''/A/B.PNG''" strip_origin]
  by (simp add: world_ab_def asset_ab_def strip_origin_def has_prefix_def to_lower_def)

text \<open>A record with locator \<open>/x/a/b.png\<close> stored before the asset with locator \<open>/a/b.png\<close>
  contains the normalized form of each of the three queries: the resolver returns that
  record, and the asset is not found.\<close>

theorem earlier_record_shadows_asset:
  "fst (findByUrl strip_origin ''a/b.png'' world_xab) = Inr (Some asset_xab)
   \<and> fst (findByUrl strip_origin ''http://host/a/b.png'' world_xab) = Inr (Some asset_xab)
   \<and> fst (findByUrl strip_origin ''/A/B.PNG'' world_xab) = Inr (Some asset_xab)
   \<and> docs world_xab = [asset_xab, asset_ab]
   \<and> url asset_ab = ''/a/b.png''
   \<and> asset_xab \<noteq> asset_ab"
  by (simp add: world_xab_def asset_xab_def asset_ab_def findByUrl_def try_catch_def return_def
      findOne_def storage_call_def url_query_def Let_def regex_i_escape
      startsWith_slash_def strip_origin_def has_prefix_def to_lower_def)

lemma findOne_matches: "fst (findOne P w) = Inr (Some m) \<Longrightarrow> P m"
  by (auto simp: findOne_def storage_call_def find_Some_iff split: list.splits event.splits)

text \<open>
  C10. \<open>findByUrl\<close> never raises: for every normalizer, locator and store it returns a
  value, which is "none" or a record that satisfies the query. For the empty locator it
  returns "none" without touching the store, and when the storage query fails it returns
  "none" as well, as it does when nothing matches.
\<close>

theorem findByUrl_never_raises:
  "(\<exists>r. fst (findByUrl normalizeUrl u w) = Inr r)
   \<and> (\<forall>m. fst (findByUrl normalizeUrl u w) = Inr (Some m) \<longrightarrow> url_query normalizeUrl u m)
   \<and> findByUrl normalizeUrl [] w = (Inr None, w)
   \<and> fst (findByUrl normalizeUrl u (w\<lparr>script := Fail e # rest\<rparr>)) = Inr None"
proof -
  have 0: "\<forall>m. fst (findByUrl normalizeUrl u w) = Inr (Some m) \<longrightarrow> url_query normalizeUrl u m"
  proof (intro allI impI)
    fix m assume a: "fst (findByUrl normalizeUrl u w) = Inr (Some m)"
    obtain r x where f: "findOne (url_query normalizeUrl u) w = (r, x)"
      by (cases "findOne (url_query normalizeUrl u) w")
    have "fst (findOne (url_query normalizeUrl u) w) = Inr (Some m)"
      using a f by (cases "u = []"; cases r) (simp_all add: findByUrl_def try_catch_def return_def)
    then show "url_query normalizeUrl u m" by (rule findOne_matches)
  qed
  obtain r x where f: "findOne (url_query normalizeUrl u) w = (r, x)"
    by (cases "findOne (url_query normalizeUrl u) w")
  have 1: "\<exists>r. fst (findByUrl normalizeUrl u w) = Inr r"
    using f by (cases r) (simp_all add: findByUrl_def try_catch_def return_def)
  have 2: "findByUrl normalizeUrl [] w = (Inr None, w)"
    by (simp add: findByUrl_def try_catch_def return_def)
  have 3: "fst (findByUrl normalizeUrl u (w\<lparr>script := Fail e # rest\<rparr>)) = Inr None"
    by (simp add: findByUrl_def try_catch_def return_def findOne_def storage_call_def)
  show ?thesis using 0 1 2 3 by blast
qed

theorem findByUrl_never_raises_witness:
  "fst (findByUrl strip_origin ''/a/b.png'' (world_ab\<lparr>script := [Fail (new_Error ''connection lost'')]\<rparr>))
     = Inr None
   \<and> fst (findByUrl strip_origin ''/a/b.png'' world_ab) = Inr (Some asset_ab)"
  using findByUrl_never_raises[of strip_origin "''/a/b.png''" world_ab "new_Error ''connection lost''" "[]"]
  by (simp add: findByUrl_quiet world_ab_def asset_ab_def url_query_def Let_def)

subsection \<open>Create or merge\<close>

lemma cast_texts:
  "cast_descriptions xs w = (Inr ds, w') \<Longrightarrow> map desc_text ds = map fst xs"
proof -
  assume a: "cast_descriptions xs w = (Inr ds, w')"
  have "map (desc_text \<circ> (\<lambda>(k, (t, c)). \<lparr>desc_id = oid_of (next_oid w + k), desc_text = t, desc_createdAt = c\<rparr>))
          (enumerate 0 xs) = map fst (map snd (enumerate 0 xs))"
    unfolding map_map by (rule map_cong) auto
  then show ?thesis using a by (auto simp: cast_descriptions_def)
qed

lemma cast_world:
  "cast_descriptions xs w = (r, w') \<Longrightarrow> w' = w\<lparr>next_oid := next_oid w + length xs\<rparr> \<and> (\<exists>ds. r = Inr ds \<and> length ds = length xs)"
  by (auto simp: cast_descriptions_def)

lemma new_descriptions_texts:
  "map fst (new_descriptions now texts existing) = appended_texts texts existing"
proof -
  have "\<And>ys. map fst (filter (\<lambda>(t, c). \<not> (\<exists>e \<in> set existing. desc_text e = t)) ys)
           = filter (\<lambda>t. t \<notin> desc_text ` set existing) (map fst (ys :: (string \<times> nat) list))"
    by (induct_tac ys) auto
  then show ?thesis
    by (simp add: new_descriptions_def appended_texts_def comp_def)
qed

lemma merge_fields_props:
  assumes "merge_fields d a = (m, h)"
  shows "media_id m = media_id a \<and> url m = url a \<and> media_type m = media_type a
       \<and> createdAt m = createdAt a \<and> descriptions m = descriptions a
       \<and> isAddedToLibrary m = isAddedToLibrary a
       \<and> filename m = (if data_filename d \<noteq> [] then data_filename d else filename a)
       \<and> media_size m = (if data_size d \<noteq> 0 then data_size d else media_size a)
       \<and> mimetype m = (if data_mimetype d \<noteq> [] then data_mimetype d else mimetype a)
       \<and> (\<not> h \<longrightarrow> m = a)"
  using assms by (auto simp: merge_fields_def split: if_splits)

lemma merge_existing_quiet:
  assumes q: "script w = []"
  shows "\<exists>m' w'. merge_existing d a w = (Inr m', w') \<and> script w' = []
       \<and> media_id m' = media_id a \<and> url m' = url a
       \<and> filename m' = (if data_filename d \<noteq> [] then data_filename d else filename a)
       \<and> media_size m' = (if data_size d \<noteq> 0 then data_size d else media_size a)
       \<and> mimetype m' = (if data_mimetype d \<noteq> [] then data_mimetype d else mimetype a)
       \<and> (\<exists>added. descriptions m' = descriptions a @ added
             \<and> map desc_text added = appended_texts (data_descriptions d) (descriptions a))
       \<and> isAddedToLibrary m'
       \<and> (docs w' = put m' (docs w) \<or> (docs w' = docs w \<and> m' = a))
       \<and> media_type m' = media_type a \<and> createdAt m' = createdAt a"
proof -
  obtain m3 h3 where mf: "merge_fields d a = (m3, h3)" by (cases "merge_fields d a")
  note p = merge_fields_props[OF mf]
  let ?xs = "new_descriptions (clock w) (data_descriptions d) (descriptions m3)"
  obtain r wc where c: "cast_descriptions ?xs w = (r, wc)" by (cases "cast_descriptions ?xs w")
  from cast_world[OF c] obtain added where
    wc: "wc = w\<lparr>next_oid := next_oid w + length ?xs\<rparr>" and r: "r = Inr added" and l: "length added = length ?xs"
    by blast
  have t: "map desc_text added = appended_texts (data_descriptions d) (descriptions a)"
    using cast_texts[OF c[unfolded r]] p by (simp add: new_descriptions_texts)
  have e: "added = [] \<Longrightarrow> appended_texts (data_descriptions d) (descriptions a) = []"
    using t by auto
  have step: "merge_existing d a w =
      (case (if added \<noteq> [] then (m3\<lparr>descriptions := descriptions m3 @ added\<rparr>, True)
             else (m3, h3)) of (m4, h4) \<Rightarrow>
       case (if \<not> isAddedToLibrary m4 then (m4\<lparr>isAddedToLibrary := True\<rparr>, True)
             else (m4, h4)) of (m5, hasUpdate) \<Rightarrow>
         if hasUpdate then (Inr m5, wc\<lparr>docs := put m5 (docs wc)\<rparr>) else (Inr m5, wc))"
    using q
    by (simp add: merge_existing_def mf bind_def Date_now_def c r wc save_def storage_call_def
        return_def split: prod.splits)
  show ?thesis
  proof (cases "added = []")
    case True
    note a0 = True e[OF True]
    show ?thesis
    proof (cases "isAddedToLibrary a")
      case True
      then show ?thesis using a0 p q t by (cases h3) (auto simp: step wc split: if_splits)
    next
      case False
      then show ?thesis using a0 p q t by (simp add: step wc)
    qed
  next
    case False
    then show ?thesis using p q t by (cases "isAddedToLibrary a") (simp_all add: step wc)
  qed
qed

lemma url_query_url: "url a = url b \<Longrightarrow> url_query nrm u a = url_query nrm u b"
  by (simp add: url_query_def Let_def)

lemma url_query_exact: "url a = u \<Longrightarrow> url_query nrm u a"
  by (simp add: url_query_def Let_def)

lemma map_id_put: "map media_id (put a ds) = map media_id ds"
  by (induction ds) auto

lemma find_put_query:
  "find P ds = Some e \<Longrightarrow> P m \<Longrightarrow> media_id m = media_id e \<Longrightarrow> find P (put m ds) = Some m"
  by (induction ds) (auto split: if_splits)

lemma find_append_new: "find P ds = None \<Longrightarrow> P a \<Longrightarrow> find P (ds @ [a]) = Some a"
  by (induction ds) (auto split: if_splits)

lemma insert_media_fresh:
  assumes "\<not> (\<exists>a \<in> set (docs w). url a = data_url d)"
  shows "\<exists>a. insert_media d added w
            = (Inr a, w\<lparr>next_oid := Suc (next_oid w) + length (data_descriptions d),
                         docs := docs w @ [a]\<rparr>)
          \<and> url a = data_url d \<and> isAddedToLibrary a = added \<and> media_id a = oid_of (next_oid w)"
  using assms by (simp add: insert_media_def cast_descriptions_def Let_def)

lemma create_quiet_found:
  assumes q: "script w = []" and ne: "nfs (data_url pl) \<noteq> []"
    and f: "find (url_query nrm (nfs (data_url pl))) (docs w) = Some e"
  shows "create nrm nfs pl w = merge_existing (pl\<lparr>data_url := nfs (data_url pl)\<rparr>) e w"
proof -
  obtain m' w' where "merge_existing (pl\<lparr>data_url := nfs (data_url pl)\<rparr>) e w = (Inr m', w')"
    using merge_existing_quiet[OF q] by blast
  then show ?thesis
    using f by (simp add: create_def Let_def try_catch_def bind_def findByUrl_quiet[OF q ne])
qed

lemma create_quiet_new:
  assumes q: "script w = []" and ne: "nfs (data_url pl) \<noteq> []"
    and f: "find (url_query nrm (nfs (data_url pl))) (docs w) = None"
  shows "\<exists>a. create nrm nfs pl w
            = (Inr a, w\<lparr>next_oid := Suc (next_oid w) + length (data_descriptions pl),
                         docs := docs w @ [a]\<rparr>)
          \<and> url a = nfs (data_url pl) \<and> isAddedToLibrary a
          \<and> media_id a = oid_of (next_oid w)"
proof -
  let ?d = "pl\<lparr>data_url := nfs (data_url pl)\<rparr>"
  have "\<not> (\<exists>a \<in> set (docs w). url a = data_url ?d)"
    using f by (auto simp: find_None_iff url_query_exact)
  from insert_media_fresh[OF this, of True] obtain a where
    a: "insert_media ?d True w
          = (Inr a, w\<lparr>next_oid := Suc (next_oid w) + length (data_descriptions ?d), docs := docs w @ [a]\<rparr>)"
       "url a = data_url ?d" "isAddedToLibrary a" "media_id a = oid_of (next_oid w)"
    by auto
  then show ?thesis
    using f q
    by (simp add: create_def Let_def try_catch_def bind_def findByUrl_quiet[OF q ne]
        MediaModel_create_def storage_call_quiet)
qed

text \<open>After a successful first call the resolver's answer for the locator is the record returned.\<close>

lemma create_quiet_first:
  assumes q: "script w = []" and ne: "nfs (data_url pl) \<noteq> []"
  shows "\<exists>a w'. create nrm nfs pl w = (Inr a, w') \<and> script w' = []
         \<and> find (url_query nrm (nfs (data_url pl))) (docs w') = Some a
         \<and> isAddedToLibrary a
         \<and> (find (url_query nrm (nfs (data_url pl))) (docs w) = None \<longrightarrow>
               docs w' = docs w @ [a] \<and> media_id a = oid_of (next_oid w))
         \<and> (find (url_query nrm (nfs (data_url pl))) (docs w) \<noteq> None \<longrightarrow>
               map media_id (docs w') = map media_id (docs w))"
proof (cases "find (url_query nrm (nfs (data_url pl))) (docs w)")
  case None
  from create_quiet_new[where w=w and nfs=nfs and pl=pl and nrm=nrm] q ne None obtain a where
    a: "create nrm nfs pl w
          = (Inr a, w\<lparr>next_oid := Suc (next_oid w) + length (data_descriptions pl), docs := docs w @ [a]\<rparr>)"
       "url a = nfs (data_url pl)" "isAddedToLibrary a" "media_id a = oid_of (next_oid w)"
    by blast
  have "find (url_query nrm (nfs (data_url pl))) (docs w @ [a]) = Some a"
    using None a(2) by (intro find_append_new url_query_exact)
  then show ?thesis using a q None by simp
next
  case (Some e)
  let ?d = "pl\<lparr>data_url := nfs (data_url pl)\<rparr>"
  from merge_existing_quiet[OF q, of ?d e] obtain m' w' where
    m: "merge_existing ?d e w = (Inr m', w')" "script w' = []" "media_id m' = media_id e"
       "url m' = url e" "isAddedToLibrary m'"
       "docs w' = put m' (docs w) \<or> (docs w' = docs w \<and> m' = e)"
    by blast
  have Pe: "url_query nrm (nfs (data_url pl)) e"
    using Some by (auto simp: find_Some_iff)
  then have Pm: "url_query nrm (nfs (data_url pl)) m'"
    using url_query_url[OF m(4)] by simp
  have "find (url_query nrm (nfs (data_url pl))) (docs w') = Some m'"
    using m(6) Some find_put_query[OF Some Pm m(3)] by auto
  moreover have "map media_id (docs w') = map media_id (docs w)"
    using m(6) by (auto simp: map_id_put)
  ultimately show ?thesis
    using m Some by (simp add: create_quiet_found[where w=w and nfs=nfs and pl=pl and nrm=nrm and e=e, OF q ne Some])
qed




lemma findByUrl_Inr: "\<exists>r. fst (findByUrl nrm u w) = Inr r"
proof -
  obtain r x where f: "findOne (url_query nrm u) w = (r, x)"
    by (cases "findOne (url_query nrm u) w")
  then show ?thesis
    by (cases r) (simp_all add: findByUrl_def try_catch_def return_def)
qed

lemmas create_examples = example_normalizer_def world_empty_def payload1_def payload2_def rival_def
  strip_origin_def has_prefix_def startsWith_slash_def



text \<open>
  C4 (as amended). When the write of \<open>create\<close> (the insert of a new record, or the save
  of a merge) fails with an error: if the error is the uniqueness violation (code 11000),
  \<open>create\<close> resolves the locator again and returns the record found; when that finds
  nothing (the record is gone, or the lookup's own query failed) the uniqueness violation
  is raised to the caller. Any other error of the write is raised as it is. A failure of
  the first lookup's query is not raised: the resolver answers "none" and \<open>create\<close> goes on
  to the insert, as for a locator that is not stored.
\<close>

theorem create_conflict:
  assumes "findByUrl normalizeUrl (normalizeUrlForStorage (data_url pl)) w = (Inr found, w1)"
    and "(case found of
            Some existingMedia \<Rightarrow>
              merge_existing (pl\<lparr>data_url := normalizeUrlForStorage (data_url pl)\<rparr>) existingMedia
          | None \<Rightarrow>
              MediaModel_create (pl\<lparr>data_url := normalizeUrlForStorage (data_url pl)\<rparr>) True) w1
         = (Inl e, w2)"
  shows "(err_code e = Some 11000 \<longrightarrow>
            create normalizeUrl normalizeUrlForStorage pl w =
              (case findByUrl normalizeUrl (normalizeUrlForStorage (data_url pl)) w2 of
                 (Inr (Some existingMedia), w3) \<Rightarrow> (Inr existingMedia, w3)
               | (_, w3) \<Rightarrow> (Inl e, w3)))
       \<and> (err_code e \<noteq> Some 11000 \<longrightarrow>
            create normalizeUrl normalizeUrlForStorage pl w = (Inl e, w2))
       \<and> (script v = Fail e0 # rest \<longrightarrow> normalizeUrlForStorage (data_url pl) \<noteq> [] \<longrightarrow>
            create normalizeUrl normalizeUrlForStorage pl v =
              (case MediaModel_create (pl\<lparr>data_url := normalizeUrlForStorage (data_url pl)\<rparr>) True
                      (v\<lparr>script := rest\<rparr>) of
                 (Inr savedDoc, v1) \<Rightarrow> (Inr savedDoc, v1)
               | (Inl e1, v1) \<Rightarrow>
                   if err_code e1 = Some 11000
                   then (case findByUrl normalizeUrl (normalizeUrlForStorage (data_url pl)) v1 of
                           (Inr (Some existingMedia), v2) \<Rightarrow> (Inr existingMedia, v2)
                         | (_, v2) \<Rightarrow> (Inl e1, v2))
                   else (Inl e1, v1)))"
proof -
  let ?c = "normalizeUrlForStorage (data_url pl)"
  obtain r w3 where f: "findByUrl normalizeUrl ?c w2 = (Inr r, w3)"
    using findByUrl_Inr[of normalizeUrl ?c w2]
    by (cases "findByUrl normalizeUrl ?c w2") auto
  have wfail: "(err_code e = Some 11000 \<longrightarrow>
            create normalizeUrl normalizeUrlForStorage pl w =
              (case findByUrl normalizeUrl ?c w2 of
                 (Inr (Some existingMedia), w3) \<Rightarrow> (Inr existingMedia, w3)
               | (_, w3) \<Rightarrow> (Inl e, w3)))
       \<and> (err_code e \<noteq> Some 11000 \<longrightarrow>
            create normalizeUrl normalizeUrlForStorage pl w = (Inl e, w2))"
    using assms f
    by (cases r) (simp_all add: create_def Let_def try_catch_def bind_def return_def throw_def)
  have lookup: "create normalizeUrl normalizeUrlForStorage pl v =
              (case MediaModel_create (pl\<lparr>data_url := ?c\<rparr>) True (v\<lparr>script := rest\<rparr>) of
                 (Inr savedDoc, v1) \<Rightarrow> (Inr savedDoc, v1)
               | (Inl e1, v1) \<Rightarrow>
                   if err_code e1 = Some 11000
                   then (case findByUrl normalizeUrl ?c v1 of
                           (Inr (Some existingMedia), v2) \<Rightarrow> (Inr existingMedia, v2)
                         | (_, v2) \<Rightarrow> (Inl e1, v2))
                   else (Inl e1, v1))"
    if s: "script v = Fail e0 # rest" and ne: "?c \<noteq> []"
  proof -
    have first: "findByUrl normalizeUrl ?c v = (Inr None, v\<lparr>script := rest\<rparr>)"
      using s ne by (simp add: findByUrl_def try_catch_def return_def findOne_def storage_call_def)
    obtain x v1 where mc: "MediaModel_create (pl\<lparr>data_url := ?c\<rparr>) True (v\<lparr>script := rest\<rparr>) = (x, v1)"
      by (cases "MediaModel_create (pl\<lparr>data_url := ?c\<rparr>) True (v\<lparr>script := rest\<rparr>)")
    obtain r2 v2 where g: "findByUrl normalizeUrl ?c v1 = (Inr r2, v2)"
      using findByUrl_Inr[of normalizeUrl ?c v1]
      by (cases "findByUrl normalizeUrl ?c v1") auto
    show ?thesis
      using first mc g
      by (cases x; cases r2)
         (simp_all add: create_def Let_def try_catch_def bind_def return_def throw_def)
  qed
  show ?thesis using wfail lookup by blast
qed

lemmas eval_defs = create_def Let_def try_catch_def bind_def return_def throw_def findByUrl_def findOne_def
  storage_call_def MediaModel_create_def insert_media_def other_writer_def cast_descriptions_def
  url_query_def duplicate_key_def new_Error_def

theorem create_conflict_witness:
  "create example_normalizer example_normalizer payload1 world_race
     = (Inr \<lparr>media_id = ''o'', media_type = ''image'', url = ''/img/a.png'',
              filename = ''rival.png'', media_size = 7, mimetype = ''image/png'',
              descriptions = [], isAddedToLibrary = True, createdAt = 5000\<rparr>,
        world_empty\<lparr>next_oid := 1,
          docs := [\<lparr>media_id = ''o'', media_type = ''image'', url = ''/img/a.png'',
              filename = ''rival.png'', media_size = 7, mimetype = ''image/png'',
              descriptions = [], isAddedToLibrary = True, createdAt = 5000\<rparr>]\<rparr>)
   \<and> create example_normalizer example_normalizer payload1 world_lookup_fails
     = (Inr \<lparr>media_id = ''o'', media_type = ''image'', url = ''/img/a.png'',
              filename = ''a.png'', media_size = 10, mimetype = ''image/png'',
              descriptions = [\<lparr>desc_id = ''oo'', desc_text = ''first'', desc_createdAt = 5000\<rparr>],
              isAddedToLibrary = True, createdAt = 5000\<rparr>,
        world_empty\<lparr>next_oid := 2,
          docs := [\<lparr>media_id = ''o'', media_type = ''image'', url = ''/img/a.png'',
              filename = ''a.png'', media_size = 10, mimetype = ''image/png'',
              descriptions = [\<lparr>desc_id = ''oo'', desc_text = ''first'', desc_createdAt = 5000\<rparr>],
              isAddedToLibrary = True, createdAt = 5000\<rparr>]\<rparr>)"
  using create_conflict[where normalizeUrl=example_normalizer and normalizeUrlForStorage=example_normalizer
      and pl=payload1 and w=world_race and found=None
      and ?w1.0="world_race\<lparr>script := [Race rival, Proceed]\<rparr>" and e=duplicate_key
      and ?w2.0="world_empty\<lparr>script := [Proceed], next_oid := 1,
          docs := [\<lparr>media_id = ''o'', media_type = ''image'', url = ''/img/a.png'',
              filename = ''rival.png'', media_size = 7, mimetype = ''image/png'',
              descriptions = [], isAddedToLibrary = True, createdAt = 5000\<rparr>]\<rparr>"
      and v="world_empty\<lparr>script := [Fail (new_Error ''connection lost'')]\<rparr>"
      and ?e0.0="new_Error ''connection lost''" and rest="[]"]
  by (simp add: world_race_def world_lookup_fails_def create_examples findByUrl_def try_catch_def
      return_def findOne_def storage_call_def MediaModel_create_def insert_media_def other_writer_def
      cast_descriptions_def url_query_def duplicate_key_def new_Error_def Let_def oid_of_def)

text \<open>Two writers race on a new locator; the loser's insert is rejected and its second
  lookup fails: the uniqueness violation reaches the caller.\<close>

theorem conflict_surfaces:
  "fst (create example_normalizer example_normalizer payload1 world_race_lost) = Inl duplicate_key"
  by (simp add: world_race_lost_def create_examples eval_defs)

subsection \<open>Batch isolation\<close>

lemmas eval_create = create_def Let_def try_catch_def bind_def return_def throw_def findByUrl_def findOne_def
  storage_call_def MediaModel_create_def insert_media_def other_writer_def cast_descriptions_def
  url_query_def duplicate_key_def new_Error_def example_normalizer_def strip_origin_def has_prefix_def
  startsWith_slash_def oid_of_def

lemmas eval_save = saveDescriptions_def try_catch_def bind_def return_def throw_def findById_def findOne_def
  storage_call_def Date_now_def collect_step_def keep_step_def cast_descriptions_def save_def Let_def
  wanted_text_def trim_def is_space_def normalizeId_def oid_of_def new_Error_def

lemma batch_loop_present_malformed:
  assumes b: "\<And>w. body b w = (Inr (Inl fb), w)"
  shows "map_sum id fst (fst (batch_loop body (xs @ b # ys) w))
           = map_sum id fst (fst (batch_loop body (xs @ ys) w))
       \<and> snd (batch_loop body (xs @ b # ys) w) = snd (batch_loop body (xs @ ys) w)
       \<and> map_sum id (\<lambda>r. length (snd r)) (fst (batch_loop body (xs @ b # ys) w))
           = map_sum id (\<lambda>r. Suc (length (snd r))) (fst (batch_loop body (xs @ ys) w))"
proof (induction xs arbitrary: w)
  case Nil
  show ?case
    by (cases "batch_loop body ys w") (auto simp: b id_def split: sum.splits prod.splits)
next
  case (Cons x xs)
  obtain r w1 where x: "body x w = (r, w1)" by (cases "body x w")
  obtain p v where 1: "batch_loop body (xs @ b # ys) w1 = (p, v)"
    by (cases "batch_loop body (xs @ b # ys) w1")
  obtain q v' where 2: "batch_loop body (xs @ ys) w1 = (q, v')"
    by (cases "batch_loop body (xs @ ys) w1")
  have ih: "map_sum id fst p = map_sum id fst q" "v = v'"
    "map_sum id (\<lambda>r. length (snd r)) p = map_sum id (\<lambda>r. Suc (length (snd r))) q"
    using Cons.IH[of w1] by (simp_all add: 1 2 id_def)
  show ?case
    using ih by (cases r; cases p; cases q) (auto simp: x 1 2 id_def split: sum.splits prod.splits)
qed

text \<open>
  What the loop does for a malformed item that is an object: the validation at the head
  of the body rejects it before any storage call, so the other items give the same
  successes and leave the same store as without it, and the failures are one more.
\<close>

lemma createItem_malformed:
  assumes "malformed_create b"
  shows "\<exists>msg. \<forall>w. createItem nrm nfs (Some b) w = (Inr (Inl (create_key b, msg)), w)"
proof (cases "data_type b = [] \<or> data_url b = []")
  case True
  then have "\<forall>w. createItem nrm nfs (Some b) w
      = (Inr (Inl (create_key b, ''Type and URL are required'')), w)"
    by (simp add: createItem_def create_key_def try_catch_def return_def)
  then show ?thesis by blast
next
  case False
  then have "\<forall>w. createItem nrm nfs (Some b) w = (Inr (Inl (create_key b,
      ''Invalid file type: '' @ data_type b
        @ ''. Supported types: image, video, document, archive, text, other'')), w)"
    using assms by (simp add: createItem_def create_key_def malformed_create_def try_catch_def return_def)
  then show ?thesis by blast
qed

lemma saveItem_malformed:
  assumes "malformed_save c"
  shows "\<exists>msg. \<forall>w. saveItem (Some c) w = (Inr (Inl (save_key c, msg)), w)"
proof (cases "normalizeId (item_id c)")
  case None
  then have "\<forall>w. saveItem (Some c) w = (Inr (Inl (save_key c, ''Media ID is required'')), w)"
    by (simp add: saveItem_def save_key_def try_catch_def return_def)
  then show ?thesis by blast
next
  case (Some i)
  then have "\<forall>w. saveItem (Some c) w = (Inr (Inl (save_key c, ''Descriptions must be an array'')), w)"
    using assms by (simp add: saveItem_def save_key_def malformed_save_def try_catch_def return_def)
  then show ?thesis by blast
qed

lemma malformed_object_isolated:
  assumes "malformed_create b" and "malformed_save c"
  shows "map_sum id fst (fst (batch_loop (createItem nrm nfs) (xs @ Some b # ys) w))
           = map_sum id fst (fst (batch_loop (createItem nrm nfs) (xs @ ys) w))
       \<and> snd (batch_loop (createItem nrm nfs) (xs @ Some b # ys) w)
           = snd (batch_loop (createItem nrm nfs) (xs @ ys) w)
       \<and> map_sum id fst (fst (batch_loop saveItem (us @ Some c # vs) v))
           = map_sum id fst (fst (batch_loop saveItem (us @ vs) v))
       \<and> snd (batch_loop saveItem (us @ Some c # vs) v) = snd (batch_loop saveItem (us @ vs) v)"
proof -
  obtain m1 where m1: "\<And>w. createItem nrm nfs (Some b) w = (Inr (Inl (create_key b, m1)), w)"
    using createItem_malformed[OF assms(1), of nrm nfs] by blast
  obtain m2 where m2: "\<And>w. saveItem (Some c) w = (Inr (Inl (save_key c, m2)), w)"
    using saveItem_malformed[OF assms(2)] by blast
  show ?thesis
    using batch_loop_present_malformed[of "createItem nrm nfs" "Some b" "(create_key b, m1)" xs ys w, OF m1]
      batch_loop_present_malformed[of saveItem "Some c" "(save_key c, m2)" us vs v, OF m2]
    by simp
qed

text \<open>
  C5 (the code at the failing input). An item that is \<open>null\<close> makes the handler of the loop
  body throw: \<open>batchCreate\<close> of a valid item followed by \<open>null\<close> raises, and so does
  \<open>batchSaveDescriptions\<close>. No result is returned, neither the success of the first item
  nor a failure entry for the second, while the store keeps what the first item wrote.
\<close>

theorem null_item_aborts_batch:
  "batchCreate example_normalizer example_normalizer [Some payload1, None] world_empty
     = (Inl (new_Error ''Error batch creating media items: Cannot read properties of null''),
        world_empty\<lparr>next_oid := 2,
          docs := [\<lparr>media_id = ''o'', media_type = ''image'', url = ''/img/a.png'',
                    filename = ''a.png'', media_size = 10, mimetype = ''image/png'',
                    descriptions = [\<lparr>desc_id = ''oo'', desc_text = ''first'', desc_createdAt = 5000\<rparr>],
                    isAddedToLibrary = True, createdAt = 5000\<rparr>]\<rparr>)
   \<and> fst (batchSaveDescriptions [Some good_save, None] world0)
     = Inl (new_Error ''Error batch saving descriptions: Cannot read properties of null'')
   \<and> docs (snd (batchSaveDescriptions [Some good_save, None] world0))
     = [asset0\<lparr>descriptions :=
              [\<lparr>desc_id = ''d1'', desc_text = ''kept'', desc_createdAt = 1\<rparr>,
               \<lparr>desc_id = ''o'', desc_text = ''new'', desc_createdAt = 5000\<rparr>]\<rparr>]"
  by (simp add: batchCreate_def batchSaveDescriptions_def batch_report_def createItem_def
      saveItem_def TypeError_null_def isValidMediaType_def MEDIA_TYPE_VALUES_def payload1_def
      world_empty_def good_save_def desired0_def world0_def asset0_def eval_create eval_save)

subsection \<open>Deletion\<close>




subsection \<open>Created or merged\<close>

lemmas eval_merge = merge_existing_def merge_fields_def new_descriptions_def Date_now_def save_def
  trim_def is_space_def regex_i_def escapeRegExp_def is_regex_special_def to_lower_def

text \<open>
  C9 (the code at the failing inputs). \<open>isExisting\<close> is computed from the clock:
  two items with the same locator in one batch both come back with \<open>isExisting = False\<close>
  although the second was merged into the record the first created; and a single new
  item whose insert takes three seconds comes back with \<open>isExisting = True\<close>.
\<close>

theorem time_window_misclassifies:
  "fst (batchCreate example_normalizer example_normalizer [Some rival, Some rival] world_empty)
     = Inr \<lparr>success =
              [\<lparr>cs_url = ''/img/a.png'',
                cs_media = \<lparr>media_id = ''o'', media_type = ''image'', url = ''/img/a.png'',
                  filename = ''rival.png'', media_size = 7, mimetype = ''image/png'',
                  descriptions = [], isAddedToLibrary = True, createdAt = 5000\<rparr>,
                isExisting = False\<rparr>,
               \<lparr>cs_url = ''/img/a.png'',
                cs_media = \<lparr>media_id = ''o'', media_type = ''image'', url = ''/img/a.png'',
                  filename = ''rival.png'', media_size = 7, mimetype = ''image/png'',
                  descriptions = [], isAddedToLibrary = True, createdAt = 5000\<rparr>,
                isExisting = False\<rparr>],
            failed = [], total = 2, successCount = 2, failCount = 0\<rparr>
   \<and> fst (batchCreate example_normalizer example_normalizer [Some rival]
          (world_empty\<lparr>script := [Proceed, Delay 3000]\<rparr>))
     = Inr \<lparr>success =
              [\<lparr>cs_url = ''/img/a.png'',
                cs_media = \<lparr>media_id = ''o'', media_type = ''image'', url = ''/img/a.png'',
                  filename = ''rival.png'', media_size = 7, mimetype = ''image/png'',
                  descriptions = [], isAddedToLibrary = True, createdAt = 5000\<rparr>,
                isExisting = True\<rparr>],
            failed = [], total = 1, successCount = 1, failCount = 0\<rparr>"
  by (simp add: batchCreate_def batch_report_def createItem_def isValidMediaType_def
      MEDIA_TYPE_VALUES_def rival_def world_empty_def eval_create eval_merge)

subsection \<open>The flag \<open>isAddedToLibrary\<close>\<close>

lemma keeps_return: "R x \<Longrightarrow> keeps K (return x) R"
  by (simp add: keeps_def return_def)

lemma keeps_throw: "keeps K (throw e) R"
  by (simp add: keeps_def throw_def)

lemma keeps_bind:
  assumes "keeps K m R1" and "\<And>x. R1 x \<Longrightarrow> keeps K (f x) R2"
  shows "keeps K (bind m f) R2"
  unfolding keeps_def
proof (intro allI impI)
  fix w assume k: "K w"
  obtain r w1 where m: "m w = (r, w1)" by (cases "m w")
  have k1: "K w1" and r1: "\<And>x. r = Inr x \<Longrightarrow> R1 x"
    using assms(1) k m by (auto simp: keeps_def)
  show "K (snd (bind m f w)) \<and> (\<forall>x. fst (bind m f w) = Inr x \<longrightarrow> R2 x)"
  proof (cases r)
    case (Inl e)
    then show ?thesis using k1 m by (simp add: bind_def)
  next
    case (Inr x)
    then have "keeps K (f x) R2" using assms(2) r1 by blast
    then show ?thesis using k1 m Inr by (simp add: bind_def keeps_def)
  qed
qed

lemma keeps_catch:
  assumes "keeps K m R" and "\<And>e. keeps K (h e) R"
  shows "keeps K (try_catch m h) R"
  unfolding keeps_def
proof (intro allI impI)
  fix w assume k: "K w"
  obtain r w1 where m: "m w = (r, w1)" by (cases "m w")
  have k1: "K w1" and r1: "\<And>x. r = Inr x \<Longrightarrow> R x"
    using assms(1) k m by (auto simp: keeps_def)
  show "K (snd (try_catch m h w)) \<and> (\<forall>x. fst (try_catch m h w) = Inr x \<longrightarrow> R x)"
  proof (cases r)
    case (Inl e)
    then show ?thesis using k1 m assms(2)[of e] by (simp add: try_catch_def keeps_def)
  next
    case (Inr x)
    then show ?thesis using k1 m r1 by (simp add: try_catch_def)
  qed
qed

lemma find_append_some: "find P xs = Some a \<Longrightarrow> find P (xs @ ys) = Some a"
  by (induction xs) (auto split: if_splits)

lemma flagged_cast: "flagged i w \<Longrightarrow> flagged i (snd (cast_descriptions xs w))"
  by (simp add: flagged_def cast_descriptions_def)

lemma flagged_insert: "flagged i w \<Longrightarrow> flagged i (snd (insert_media d added w))"
  by (auto simp: flagged_def insert_media_def cast_descriptions_def Let_def find_append_some)

lemma flagged_other_writer: "flagged i w \<Longrightarrow> flagged i (other_writer d w)"
  by (simp add: other_writer_def flagged_insert)

lemma flagged_script [simp]: "flagged i (w\<lparr>script := s\<rparr>) = flagged i w"
  by (simp add: flagged_def)

lemma flagged_clock [simp]: "flagged i (w\<lparr>clock := c\<rparr>) = flagged i w"
  by (simp add: flagged_def)

lemma keeps_storage_call:
  assumes "keeps (flagged i) f R"
  shows "keeps (flagged i) (storage_call f) R"
  unfolding keeps_def
proof (intro allI impI)
  fix w assume k: "flagged i w"
  have f: "\<And>v. flagged i v \<Longrightarrow> flagged i (snd (f v)) \<and> (\<forall>x. fst (f v) = Inr x \<longrightarrow> R x)"
    using assms by (simp add: keeps_def)
  show "flagged i (snd (storage_call f w)) \<and> (\<forall>x. fst (storage_call f w) = Inr x \<longrightarrow> R x)"
  proof (cases "script w")
    case Nil
    then show ?thesis using f[OF k] by (simp add: storage_call_def)
  next
    case (Cons ev rest)
    show ?thesis
    proof (cases ev)
      case Proceed
      then show ?thesis using Cons f[of "w\<lparr>script := rest\<rparr>"] k by (simp add: storage_call_def)
    next
      case (Delay n)
      then show ?thesis using Cons f[of "w\<lparr>script := rest\<rparr>"] k
        by (cases "f (w\<lparr>script := rest\<rparr>)") (simp add: storage_call_def)
    next
      case (Fail e)
      then show ?thesis using Cons k by (simp add: storage_call_def)
    next
      case (Race d)
      have "flagged i (other_writer d (w\<lparr>script := rest\<rparr>))"
        using k by (simp add: flagged_other_writer)
      then show ?thesis using Cons Race f[of "other_writer d (w\<lparr>script := rest\<rparr>)"]
        by (simp add: storage_call_def)
    qed
  qed
qed

lemma keeps_findOne: "keeps (flagged i) (findOne P) (\<lambda>_. True)"
  unfolding findOne_def by (rule keeps_storage_call) (simp add: keeps_def)

lemma keeps_findById:
  "keeps (flagged i) (findById j) (\<lambda>r. \<forall>m. r = Some m \<longrightarrow> media_id m = j \<and> (j = i \<longrightarrow> isAddedToLibrary m))"
  unfolding findById_def findOne_def
  by (rule keeps_storage_call) (auto simp: keeps_def flagged_def dest: find_id)

lemma find_id_put:
  "find (\<lambda>x. media_id x = i) (put a ds) =
     (if media_id a = i then map_option (\<lambda>_. a) (find (\<lambda>x. media_id x = i) ds)
      else find (\<lambda>x. media_id x = i) ds)"
  by (induction ds) auto

lemma flagged_put:
  "flagged i w \<Longrightarrow> (media_id a = i \<longrightarrow> isAddedToLibrary a) \<Longrightarrow> flagged i (w\<lparr>docs := put a (docs w)\<rparr>)"
  by (auto simp: flagged_def find_id_put)

lemma keeps_save:
  "(media_id a = i \<longrightarrow> isAddedToLibrary a) \<Longrightarrow> keeps (flagged i) (save a) (\<lambda>_. True)"
  unfolding save_def by (rule keeps_storage_call) (simp add: keeps_def flagged_put)

lemma keeps_cast: "keeps (flagged i) (cast_descriptions xs) (\<lambda>_. True)"
  by (simp add: keeps_def flagged_cast)

lemma keeps_Date_now: "keeps K Date_now (\<lambda>_. True)"
  by (simp add: keeps_def Date_now_def)

lemma keeps_MediaModel_create: "keeps (flagged i) (MediaModel_create d added) (\<lambda>_. True)"
  unfolding MediaModel_create_def by (rule keeps_storage_call) (simp add: keeps_def flagged_insert)

lemma keeps_findByUrl: "keeps (flagged i) (findByUrl nrm u) (\<lambda>_. True)"
  unfolding findByUrl_def
  by (rule keeps_catch) (auto intro: keeps_return keeps_findOne)

lemma keeps_save_return:
  "(media_id a = i \<longrightarrow> isAddedToLibrary a) \<Longrightarrow> keeps (flagged i) (bind (save a) (\<lambda>_. return a)) (\<lambda>_. True)"
  by (rule keeps_bind[OF keeps_save]) (auto intro: keeps_return)

lemma keeps_merge_existing: "keeps (flagged i) (merge_existing d e) (\<lambda>_. True)"
proof -
  obtain m3 h3 where mf: "merge_fields d e = (m3, h3)" by (cases "merge_fields d e")
  show ?thesis
    unfolding merge_existing_def mf prod.case
    apply (rule keeps_bind[OF keeps_Date_now])
    apply (rule keeps_bind[OF keeps_cast])
    apply (auto intro!: keeps_save_return keeps_return split: if_splits)
    done
qed

lemma keeps_create: "keeps (flagged i) (create nrm nfs d) (\<lambda>_. True)"
  unfolding create_def Let_def
  apply (rule keeps_catch)
   apply (rule keeps_bind[OF keeps_findByUrl])
   apply (auto intro!: keeps_merge_existing keeps_MediaModel_create keeps_throw keeps_return
      keeps_bind[OF keeps_findByUrl] split: option.splits)
  done

lemma keeps_snd: "keeps K m R \<Longrightarrow> K w \<Longrightarrow> K (snd (m w))"
  by (simp add: keeps_def)

lemma keeps_found:
  assumes "\<And>m. media_id m = j \<Longrightarrow> (j = i \<longrightarrow> isAddedToLibrary m) \<Longrightarrow> keeps (flagged i) (f m) R"
  shows "keeps (flagged i)
           (bind (findById j) (\<lambda>found. case found of None \<Rightarrow> throw e | Some m \<Rightarrow> f m)) R"
  by (rule keeps_bind[OF keeps_findById]) (auto intro: keeps_throw assms split: option.splits)

lemma keeps_saveDescriptions: "keeps (flagged i) (saveDescriptions j ds) (\<lambda>_. True)"
  unfolding saveDescriptions_def
  apply (rule keeps_catch)
   apply (rule keeps_found)
   apply (rule keeps_bind[OF keeps_Date_now])
   apply (auto intro!: keeps_bind[OF keeps_cast] keeps_save_return keeps_throw split: prod.splits simp: Let_def)
  done

lemma keeps_addDescription: "keeps (flagged i) (addDescription j t) (\<lambda>_. True)"
  unfolding addDescription_def
  apply (rule keeps_catch)
   apply (rule keeps_found)
   apply (rule keeps_bind[OF keeps_Date_now])
   apply (auto intro!: keeps_bind[OF keeps_cast] keeps_save_return keeps_throw simp: Let_def)
  done

lemma keeps_removeDescription: "keeps (flagged i) (removeDescription j k) (\<lambda>_. True)"
  unfolding removeDescription_def
  apply (rule keeps_catch)
   apply (rule keeps_found)
   apply (auto intro!: keeps_save_return keeps_throw simp: Let_def split: option.splits)
  done

lemma keeps_updateDescription: "keeps (flagged i) (updateDescription j k t) (\<lambda>_. True)"
  unfolding updateDescription_def
  apply (rule keeps_catch)
   apply (rule keeps_found)
   apply (auto intro!: keeps_save_return keeps_throw simp: Let_def split: option.splits)
  done

lemma keeps_update:
  assumes "set_isAddedToLibrary f \<noteq> Some False"
  shows "keeps (flagged i) (update j f) (\<lambda>_. True)"
proof -
  have a: "\<And>a. isAddedToLibrary a \<Longrightarrow> isAddedToLibrary (apply_set f a)"
    using assms by (cases "set_isAddedToLibrary f") (auto simp: apply_set_def)
  have b: "\<And>a. media_id (apply_set f a) = media_id a"
    by (simp add: apply_set_def)
  have "keeps (flagged i) (findByIdAndUpdate j f) (\<lambda>_. True)"
    unfolding findByIdAndUpdate_def
  proof (rule keeps_storage_call, unfold keeps_def, intro allI impI)
    fix w assume k: "flagged i w"
    show "flagged i (snd (case find (\<lambda>a. media_id a = j) (docs w) of
              None \<Rightarrow> (Inr None, w)
            | Some a \<Rightarrow> let a' = apply_set f a
                in if url a' \<noteq> url a \<and> (\<exists>b\<in>set (docs w). url b = url a') then (Inl duplicate_key, w)
                   else (Inr (Some a'), w\<lparr>docs := put a' (docs w)\<rparr>)))
        \<and> (\<forall>x. fst (case find (\<lambda>a. media_id a = j) (docs w) of
              None \<Rightarrow> (Inr None, w)
            | Some a \<Rightarrow> let a' = apply_set f a
                in if url a' \<noteq> url a \<and> (\<exists>b\<in>set (docs w). url b = url a') then (Inl duplicate_key, w)
                   else (Inr (Some a'), w\<lparr>docs := put a' (docs w)\<rparr>)) = Inr x \<longrightarrow> True)"
    proof (cases "find (\<lambda>a. media_id a = j) (docs w)")
      case None
      then show ?thesis using k by simp
    next
      case (Some a)
      have "media_id a = j" using Some by (rule find_id)
      then have "media_id (apply_set f a) = i \<longrightarrow> isAddedToLibrary (apply_set f a)"
        using k Some a b by (auto simp: flagged_def)
      then have "flagged i (w\<lparr>docs := put (apply_set f a) (docs w)\<rparr>)"
        using k by (simp add: flagged_put)
      then show ?thesis using Some k by (simp add: Let_def)
    qed
  qed
  then show ?thesis
    unfolding update_def by (rule keeps_catch) (rule keeps_throw)
qed

lemma keeps_batch_loop:
  assumes "\<And>item. keeps K (body item) (\<lambda>_. True)"
  shows "keeps K (batch_loop body items) (\<lambda>_. True)"
  unfolding keeps_def
proof (intro allI impI conjI)
  fix w assume "K w"
  then show "K (snd (batch_loop body items w))"
  proof (induction items arbitrary: w)
    case Nil
    then show ?case by simp
  next
    case (Cons item rest)
    obtain r w1 where b: "body item w = (r, w1)" by (cases "body item w")
    have k1: "K w1" using assms[of item] Cons.prems b by (auto simp: keeps_def)
    obtain q w2 where l: "batch_loop body rest w1 = (q, w2)" by (cases "batch_loop body rest w1")
    have "K w2" using Cons.IH[OF k1] l by simp
    then show ?case using b l k1 by (auto split: sum.splits prod.splits)
  qed
qed simp

lemma keeps_createItem: "keeps (flagged i) (createItem nrm nfs item) (\<lambda>_. True)"
  unfolding createItem_def
  apply (rule keeps_catch)
   apply (cases item)
    apply (auto intro!: keeps_throw keeps_return keeps_bind[OF keeps_create]
      keeps_bind[OF keeps_Date_now] simp: Let_def split: option.splits)
  done

lemma keeps_saveItem: "keeps (flagged i) (saveItem item) (\<lambda>_. True)"
  unfolding saveItem_def
  apply (rule keeps_catch)
   apply (cases item)
    apply (auto intro!: keeps_throw keeps_return keeps_bind[OF keeps_saveDescriptions]
      split: option.splits)
  done

lemma keeps_addItem: "keeps (flagged i) (addItem item) (\<lambda>_. True)"
  unfolding addItem_def
  apply (rule keeps_catch)
   apply (cases item)
    apply (auto intro!: keeps_throw keeps_return keeps_bind[OF keeps_findById]
      keeps_bind[OF keeps_Date_now] keeps_bind[OF keeps_cast] keeps_bind[OF keeps_save]
      split: option.splits list.splits)
  done

lemma flagged_batchCreate: "flagged i w \<Longrightarrow> flagged i (snd (batchCreate nrm nfs items w))"
proof -
  have "keeps (flagged i) (batchCreate nrm nfs items) (\<lambda>_. True)"
    unfolding batchCreate_def
    by (rule keeps_catch)
       (auto intro!: keeps_throw keeps_return keeps_bind[OF keeps_batch_loop] keeps_createItem)
  then show "flagged i w \<Longrightarrow> flagged i (snd (batchCreate nrm nfs items w))"
    by (rule keeps_snd)
qed

lemma flagged_batchSave: "flagged i w \<Longrightarrow> flagged i (snd (batchSaveDescriptions items w))"
proof -
  have "keeps (flagged i) (batchSaveDescriptions items) (\<lambda>_. True)"
    unfolding batchSaveDescriptions_def
    by (rule keeps_catch)
       (auto intro!: keeps_throw keeps_return keeps_bind[OF keeps_batch_loop] keeps_saveItem)
  then show "flagged i w \<Longrightarrow> flagged i (snd (batchSaveDescriptions items w))"
    by (rule keeps_snd)
qed

lemma flagged_batchAdd: "flagged i w \<Longrightarrow> flagged i (snd (batchAddDescription items w))"
proof -
  have "keeps (flagged i) (batchAddDescription items) (\<lambda>_. True)"
    unfolding batchAddDescription_def
    by (rule keeps_catch)
       (auto intro!: keeps_throw keeps_return keeps_bind[OF keeps_batch_loop] keeps_addItem)
  then show "flagged i w \<Longrightarrow> flagged i (snd (batchAddDescription items w))"
    by (rule keeps_snd)
qed

lemma flag_never_reset:
  assumes "flagged i w" and "\<not> clears_flag op"
  shows "flagged i (perform normalizeUrl normalizeUrlForStorage op w)"
proof (cases op)
  case (Create d)
  then show ?thesis using keeps_snd[OF keeps_create assms(1)] by simp
next
  case (Update j f)
  then show ?thesis using assms(2) keeps_snd[OF keeps_update assms(1)] by simp
next
  case (AddDescription j t)
  then show ?thesis using keeps_snd[OF keeps_addDescription assms(1)] by simp
next
  case (RemoveDescription j k)
  then show ?thesis using keeps_snd[OF keeps_removeDescription assms(1)] by simp
next
  case (UpdateDescription j k t)
  then show ?thesis using keeps_snd[OF keeps_updateDescription assms(1)] by simp
next
  case (SaveDescriptions j ds)
  then show ?thesis using keeps_snd[OF keeps_saveDescriptions assms(1)] by simp
next
  case (BatchCreate items)
  then show ?thesis using flagged_batchCreate[OF assms(1)] by simp
next
  case (BatchSaveDescriptions items)
  then show ?thesis using flagged_batchSave[OF assms(1)] by simp
next
  case (BatchAddDescription items)
  then show ?thesis using flagged_batchAdd[OF assms(1)] by simp
qed

text \<open>
  C8 (as amended). In any store and under any behaviour of the storage layer, an asset
  whose stored flag \<open>isAddedToLibrary\<close> is true still has it true after \<open>create\<close>, the
  description operations and the batch operations, and after \<open>update\<close> unless the update
  fields themselves set the flag to false. Where every call proceeds, \<open>create\<close> with a
  non-empty canonical locator returns, and the resolver then finds, a record whose flag
  is true.
\<close>

theorem flag_kept:
  assumes "flagged i w" and "\<not> clears_flag op"
  shows "flagged i (perform normalizeUrl normalizeUrlForStorage op w)
       \<and> (\<forall>d v. script v = [] \<longrightarrow> normalizeUrlForStorage (data_url d) \<noteq> [] \<longrightarrow>
             (\<exists>a v'. create normalizeUrl normalizeUrlForStorage d v = (Inr a, v')
                \<and> isAddedToLibrary a
                \<and> find (url_query normalizeUrl (normalizeUrlForStorage (data_url d))) (docs v') = Some a))"
proof -
  have 1: "flagged i (perform normalizeUrl normalizeUrlForStorage op w)"
    using assms by (rule flag_never_reset)
  have 2: "\<forall>d v. script v = [] \<longrightarrow> normalizeUrlForStorage (data_url d) \<noteq> [] \<longrightarrow>
             (\<exists>a v'. create normalizeUrl normalizeUrlForStorage d v = (Inr a, v')
                \<and> isAddedToLibrary a
                \<and> find (url_query normalizeUrl (normalizeUrlForStorage (data_url d))) (docs v') = Some a)"
  proof (intro allI impI)
    fix d :: data and v :: world assume q: "script v = []" and ne: "normalizeUrlForStorage (data_url d) \<noteq> []"
    show "\<exists>a v'. create normalizeUrl normalizeUrlForStorage d v = (Inr a, v')
                \<and> isAddedToLibrary a
                \<and> find (url_query normalizeUrl (normalizeUrlForStorage (data_url d))) (docs v') = Some a"
    proof -
      from create_quiet_first[where w=v and nfs=normalizeUrlForStorage and pl=d and nrm=normalizeUrl, OF q ne]
      obtain a v' where "create normalizeUrl normalizeUrlForStorage d v = (Inr a, v')"
        and "find (url_query normalizeUrl (normalizeUrlForStorage (data_url d))) (docs v') = Some a"
        and "isAddedToLibrary a"
        by (elim exE conjE)
      then show ?thesis by (intro exI conjI)
    qed
  qed
  show ?thesis using 1 2 by blast
qed

theorem flag_kept_witness:
  "flagged ''m1'' (perform example_normalizer example_normalizer (SaveDescriptions ''m1'' blank0) world0)
   \<and> flagged ''m1'' (perform example_normalizer example_normalizer (Create payload2) world0)"
  using flag_kept[of "''m1''" world0 "SaveDescriptions ''m1'' blank0" example_normalizer example_normalizer]
    flag_kept[of "''m1''" world0 "Create payload2" example_normalizer example_normalizer]
  by (simp add: flagged_def world0_def asset0_def)

text \<open>\<open>update\<close> writes the fields it is given: with \<open>isAddedToLibrary: false\<close> among them
  the flag is reset.\<close>

theorem update_unsets_flag:
  "flagged ''m1'' world0
   \<and> \<not> flagged ''m1'' (perform example_normalizer example_normalizer (Update ''m1'' unset_flag) world0)"
  by (simp add: flagged_def world0_def asset0_def unset_flag_def update_def findByIdAndUpdate_def
      try_catch_def storage_call_def apply_set_def Let_def)

end
